theory Spec2Isabelle
  imports Complex_Main "HOL-Library.AList"
begin

section \<open>Streaming classification session (socketio\_events.py, process\_fsl\_frame)\<close>

text \<open>
  The handler keeps its per-user state in three dictionaries stored as attributes of the
  handler function itself: \<open>user_buffers\<close>, \<open>frame_counters\<close> and
  \<open>no_hands_streak\<close>. An attribute that has not been created yet is \<open>None\<close>
  (the source asks \<open>hasattr\<close>); a dictionary is a map from user ids to values.

  The buffer holds references to the frame dictionaries; the type \<open>'f\<close> stands for such a
  reference. The session logic never looks inside a frame, so the in-place padding that
  the predictor performs on the frames it is given does not change the list of references.
  Wall-clock fields of the emitted messages (\<open>processing_time\<close>) are left out.
\<close>

type_synonym uid = nat

record 'f fsl_attrs =
  user_buffers :: "(uid \<rightharpoonup> 'f list) option"
  frame_counters :: "(uid \<rightharpoonup> int) option"
  no_hands_streak :: "(uid \<rightharpoonup> int) option"

text \<open>
  What one \<open>process_fsl_frame\<close> event carries after decoding and landmark detection:
  a payload whose decoding raises, a decoded image in which \<open>extract_fsl_landmarks_from_frame\<close>
  finds no hand (it returns \<open>None\<close>), or a frame with landmarks.
\<close>

datatype 'f frame_input = BadPayload | NoHands | Hands 'f

text \<open>
  The messages the handler emits. \<open>PredictionResult buf p n\<close> and \<open>PredictionError buf\<close>
  are the two outcomes of one call \<open>fsl_predictor.predict(buf)\<close>: the call returned \<open>p\<close>,
  or it raised; \<open>buf\<close> records the argument of the call.
\<close>

datatype ('f, 'p) emit =
    NotAuthenticated
  | ModelNotLoaded
  | Collecting nat
  | PredictionResult "'f list" 'p nat
  | PredictionError "'f list"
  | NoHandsDetected
  | FrameProcessingFailed

text \<open>Python truthiness of \<open>session.get('user_id')\<close>: \<open>None\<close> and \<open>0\<close> are falsy.\<close>

fun truthy_uid :: "uid option \<Rightarrow> bool" where
  "truthy_uid None = False"
| "truthy_uid (Some u) = (u \<noteq> 0)"

definition attr_or_empty :: "('k \<rightharpoonup> 'v) option \<Rightarrow> ('k \<rightharpoonup> 'v)" where
  "attr_or_empty a = (case a of None \<Rightarrow> Map.empty | Some m \<Rightarrow> m)"

text \<open>\<open>buf.append(x)\<close>, then \<open>pop(0)\<close> when the length exceeds 30.\<close>

definition append_evict :: "'f list \<Rightarrow> 'f \<Rightarrow> 'f list" where
  "append_evict buf x = (let b = buf @ [x] in if length b > 30 then tl b else b)"

text \<open>The branch taken when landmarks were found (source lines 539-607).\<close>

definition hands_branch ::
  "('f list \<Rightarrow> 'p option) \<Rightarrow> uid \<Rightarrow> 'f \<Rightarrow> 'f fsl_attrs \<Rightarrow> 'f fsl_attrs \<times> ('f, 'p) emit list" where
  "hands_branch classify u f st =
    (let bufs0 = attr_or_empty (user_buffers st);
         cnts0 = attr_or_empty (frame_counters st);
         (bufs1, cnts1) = (if bufs0 u = None then (bufs0(u \<mapsto> []), cnts0(u \<mapsto> 0)) else (bufs0, cnts0));
         strk1 = (attr_or_empty (no_hands_streak st))(u \<mapsto> 0);
         buf = append_evict (the (bufs1 u)) f;
         bufs2 = bufs1(u \<mapsto> buf);
         buffer_size = length buf;
         st2 = \<lparr>user_buffers = Some bufs2, frame_counters = Some cnts1, no_hands_streak = Some strk1\<rparr>
     in case cnts1 u of
          None \<Rightarrow> (st2, [FrameProcessingFailed])
        | Some c \<Rightarrow>
           (let frame_count = c + 1;
                st3 = st2\<lparr>frame_counters := Some (cnts1(u \<mapsto> frame_count))\<rparr>
            in if buffer_size < 15 then
                 (st3, if buffer_size mod 3 = 0 then [Collecting buffer_size] else [])
               else if frame_count mod 3 \<noteq> 0 then (st3, [])
               else (case classify buf of
                       Some p \<Rightarrow> (st3, [PredictionResult buf p buffer_size])
                     | None \<Rightarrow> (st3, [PredictionError buf]))))"

text \<open>The branch taken when no hand was found (source lines 608-634).\<close>

definition no_hands_branch :: "uid \<Rightarrow> 'f fsl_attrs \<Rightarrow> 'f fsl_attrs \<times> ('f, 'p) emit list" where
  "no_hands_branch u st =
    (let strk0 = attr_or_empty (no_hands_streak st);
         strk1 = (if strk0 u = None then strk0(u \<mapsto> 0) else strk0);
         s = the (strk1 u) + 1;
         strk2 = strk1(u \<mapsto> s);
         st2 = st\<lparr>no_hands_streak := Some strk2\<rparr>;
         notice = (\<lambda>k::int. if k mod 10 = 1 then [NoHandsDetected] else [])
     in if s \<ge> 5 then
          (case user_buffers st of
             None \<Rightarrow> (st2\<lparr>no_hands_streak := Some (strk2(u \<mapsto> 0))\<rparr>, notice 0)
           | Some bufs \<Rightarrow>
              (if bufs u = None then (st2\<lparr>no_hands_streak := Some (strk2(u \<mapsto> 0))\<rparr>, notice 0)
               else (case frame_counters st of
                       None \<Rightarrow> (st2\<lparr>user_buffers := Some (bufs(u \<mapsto> []))\<rparr>, [FrameProcessingFailed])
                     | Some cnts \<Rightarrow>
                        (st2\<lparr>user_buffers := Some (bufs(u \<mapsto> [])),
                             frame_counters := Some (cnts(u \<mapsto> 0)),
                             no_hands_streak := Some (strk2(u \<mapsto> 0))\<rparr>, notice 0))))
        else (st2, notice s))"

text \<open>
  The handler: \<open>predictor\<close> is \<open>current_app.fsl_predictor\<close> (\<open>None\<close> when no model is
  loaded) and \<open>classify\<close> its method \<open>predict\<close>, a parameter of the session model;
  \<open>user\<close> is \<open>session.get('user_id')\<close>.
\<close>

definition handle_process_fsl_frame ::
  "('f list \<Rightarrow> 'p option) option \<Rightarrow> uid option \<Rightarrow> 'f frame_input \<Rightarrow> 'f fsl_attrs
     \<Rightarrow> 'f fsl_attrs \<times> ('f, 'p) emit list" where
  "handle_process_fsl_frame predictor user inp st =
    (if \<not> truthy_uid user then (st, [NotAuthenticated])
     else case predictor of
            None \<Rightarrow> (st, [ModelNotLoaded])
          | Some classify \<Rightarrow>
             (case inp of
                BadPayload \<Rightarrow> (st, [FrameProcessingFailed])
              | Hands f \<Rightarrow> hands_branch classify (the user) f st
              | NoHands \<Rightarrow> no_hands_branch (the user) st))"

text \<open>
  The two handlers that destroy session state. \<open>disconnect\<close> deletes the user's buffer
  only; \<open>leave_fsl_learning\<close> deletes the buffer and the frame counter, and looks for the
  streak under the attribute name \<open>no_hands_counter\<close>, which is never created, so the
  streak stays.
\<close>

definition map_del :: "('k \<rightharpoonup> 'v) option \<Rightarrow> 'k \<Rightarrow> ('k \<rightharpoonup> 'v) option" where
  "map_del a k = (case a of None \<Rightarrow> None | Some m \<Rightarrow> Some (m(k := None)))"

definition handle_disconnect_fsl :: "uid option \<Rightarrow> 'f fsl_attrs \<Rightarrow> 'f fsl_attrs" where
  "handle_disconnect_fsl user st =
    (case user of None \<Rightarrow> st
     | Some u \<Rightarrow> st\<lparr>user_buffers := map_del (user_buffers st) u\<rparr>)"

definition handle_leave_fsl_learning :: "uid option \<Rightarrow> 'f fsl_attrs \<Rightarrow> 'f fsl_attrs" where
  "handle_leave_fsl_learning user st =
    (if truthy_uid user then
       st\<lparr>user_buffers := map_del (user_buffers st) (the user),
          frame_counters := map_del (frame_counters st) (the user)\<rparr>
     else st)"

datatype 'f fsl_event = Frame "'f frame_input" | Disconnect | LeaveLearning

definition fsl_step ::
  "('f list \<Rightarrow> 'p option) option \<Rightarrow> uid option \<times> 'f fsl_event \<Rightarrow> 'f fsl_attrs
     \<Rightarrow> 'f fsl_attrs \<times> ('f, 'p) emit list" where
  "fsl_step predictor ev st =
    (case snd ev of
       Frame inp \<Rightarrow> handle_process_fsl_frame predictor (fst ev) inp st
     | Disconnect \<Rightarrow> (handle_disconnect_fsl (fst ev) st, [])
     | LeaveLearning \<Rightarrow> (handle_leave_fsl_learning (fst ev) st, []))"

text \<open>A run of events; the emitted messages are collected in order.\<close>

fun fsl_run ::
  "('f list \<Rightarrow> 'p option) option \<Rightarrow> (uid option \<times> 'f fsl_event) list \<Rightarrow> 'f fsl_attrs
     \<Rightarrow> 'f fsl_attrs \<times> ('f, 'p) emit list" where
  "fsl_run predictor [] st = (st, [])"
| "fsl_run predictor (ev # evs) st =
    (let (st1, out1) = fsl_step predictor ev st;
         (st2, out2) = fsl_run predictor evs st1
     in (st2, out1 @ out2))"

definition fsl_init :: "'f fsl_attrs" where
  "fsl_init = \<lparr>user_buffers = None, frame_counters = None, no_hands_streak = None\<rparr>"

definition buffer_of :: "'f fsl_attrs \<Rightarrow> uid \<Rightarrow> 'f list option" where
  "buffer_of st u = attr_or_empty (user_buffers st) u"

definition counter_of :: "'f fsl_attrs \<Rightarrow> uid \<Rightarrow> int option" where
  "counter_of st u = attr_or_empty (frame_counters st) u"

definition streak_of :: "'f fsl_attrs \<Rightarrow> uid \<Rightarrow> int option" where
  "streak_of st u = attr_or_empty (no_hands_streak st) u"

text \<open>
  The invariant of the three dictionaries that every run keeps: a user with a buffer has a
  frame counter, the buffer holds \<open>min counter 30\<close> frames, and a stored no-hands streak
  lies between 0 and 4.
\<close>

definition fsl_inv :: "'f fsl_attrs \<Rightarrow> bool" where
  "fsl_inv st \<longleftrightarrow>
     (\<forall>u b. buffer_of st u = Some b \<longrightarrow>
        (\<exists>c. counter_of st u = Some c \<and> 0 \<le> c \<and> int (length b) = min c 30)) \<and>
     (\<forall>u s. streak_of st u = Some s \<longrightarrow> 0 \<le> s \<and> s < 5)"

section \<open>Room coordinator (socketio\_events.py, home.py)\<close>

text \<open>
  A room is the dictionary created in \<open>home.py\<close> (keys \<open>members\<close>, \<open>participants\<close>,
  \<open>creator\<close>, \<open>creator_id\<close>) to which the socket handlers add further keys; a key
  that may be missing is an \<open>option\<close> field. The dictionaries \<open>camera_status\<close> and
  \<open>final_scores\<close> are association lists in insertion order with \<open>AList.update\<close> as
  item assignment (an existing key keeps its place, a new key goes to the end), as a Python
  dictionary iterates. Their keys are \<open>session.get('user_id')\<close>, which may be \<open>None\<close>.
\<close>

record cam_entry =
  cam_username :: string
  camera_ready :: bool

record room =
  members :: int
  participants :: "string list"
  creator :: string
  creator_id :: uid
  camera_status :: "(uid option \<times> cam_entry) list option"
  final_scores :: "(uid option \<times> int) list option"
  scores_saved :: "bool option"
  creator_participated :: "bool option"
  game_type :: "string option"
  duration :: "int option"
  learning_material :: "string option"

record gstate =
  ongoing :: "bool option"

text \<open>
  The external store, as far as the coordinator uses it: the \<open>users\<close> table as a lookup
  from username to id, the \<open>rooms\<close> table (one row per game instance, in insertion
  order, which is the order of \<open>created_at\<close>) and the \<open>game_sessions\<close> table (one
  row per persisted score). \<open>reachable = False\<close> stands for a store whose calls raise;
  the source catches that and only prints.
\<close>

record db_room_row =
  row_id :: nat
  row_room_code :: string
  row_game_type :: string
  row_duration :: int
  row_total_participants :: nat
  row_creator_id :: "uid option"
  row_learning_material :: string

record score_row =
  sr_user_id :: "uid option"
  sr_room_id :: nat
  sr_score :: int

record store =
  reachable :: bool
  users_tbl :: "string \<rightharpoonup> uid"
  rooms_tbl :: "db_room_row list"
  game_sessions_tbl :: "score_row list"

record coord =
  rooms :: "string \<rightharpoonup> room"
  game_states :: "string \<rightharpoonup> gstate"
  db :: store

text \<open>The Flask session of the connection that sent the event.\<close>

record sess =
  s_user_id :: "uid option"
  s_room :: "string option"
  s_name :: "string option"

text \<open>Python truthiness of \<open>session.get('room')\<close>: \<open>None\<close> and the empty string are falsy.\<close>

fun truthy_str :: "string option \<Rightarrow> bool" where
  "truthy_str None = False"
| "truthy_str (Some r) = (r \<noteq> [])"

text \<open>
  \<open>rooms\<close> is keyed by room codes; \<open>room in rooms\<close> for a session value that may be
  \<open>None\<close>.
\<close>

definition room_in :: "string option \<Rightarrow> (string \<rightharpoonup> 'a) \<Rightarrow> bool" where
  "room_in r m = (case r of None \<Rightarrow> False | Some c \<Rightarrow> m c \<noteq> None)"

text \<open>Room creation in \<open>home.py\<close> (source lines 55-66), for a code not yet in use.\<close>

definition create_room :: "string \<Rightarrow> string \<Rightarrow> uid \<Rightarrow> coord \<Rightarrow> coord" where
  "create_room code name user st =
    st\<lparr>rooms := (rooms st)(code \<mapsto>
         \<lparr>members = 0, participants = [], creator = name, creator_id = user,
          camera_status = None, final_scores = None, scores_saved = None,
          creator_participated = None, game_type = None, duration = None,
          learning_material = None\<rparr>)\<rparr>"

text \<open>
  \<open>handle_join\<close> (source lines 222-268), its effect on the room; the broadcasts are left
  out. \<open>code\<close> and \<open>name\<close> are \<open>data.get("room")\<close> and \<open>data.get("name")\<close>.
\<close>

definition handle_join :: "sess \<Rightarrow> string \<Rightarrow> string \<Rightarrow> coord \<Rightarrow> coord" where
  "handle_join se code name st =
    (case rooms st code of
       None \<Rightarrow> st
     | Some rm \<Rightarrow>
        (let ps = (if name \<in> set (participants rm) then participants rm else participants rm @ [name]);
             cs = (case camera_status rm of None \<Rightarrow> [] | Some c \<Rightarrow> c);
             cs' = AList.update (s_user_id se) \<lparr>cam_username = name, camera_ready = False\<rparr> cs
         in st\<lparr>rooms := (rooms st)(code \<mapsto>
                 rm\<lparr>participants := ps, members := members rm + 1, camera_status := Some cs'\<rparr>)\<rparr>))"

text \<open>
  \<open>handle_camera_ready\<close> (source lines 285-297). The second component says whether
  \<open>camera_status[user_id]\<close> raised \<open>KeyError\<close>.
\<close>

definition handle_camera_ready :: "sess \<Rightarrow> coord \<Rightarrow> coord \<times> bool" where
  "handle_camera_ready se st =
    (if \<not> truthy_uid (s_user_id se) \<or> \<not> truthy_str (s_room se) \<or> \<not> room_in (s_room se) (rooms st)
     then (st, False)
     else
      (let code = the (s_room se);
           rm = the (rooms st code);
           cs = (case camera_status rm of None \<Rightarrow> [] | Some c \<Rightarrow> c)
       in case map_of cs (s_user_id se) of
            None \<Rightarrow> (st\<lparr>rooms := (rooms st)(code \<mapsto> rm\<lparr>camera_status := Some cs\<rparr>)\<rparr>, True)
          | Some e \<Rightarrow>
             (st\<lparr>rooms := (rooms st)(code \<mapsto>
                   rm\<lparr>camera_status := Some (AList.update (s_user_id se) (e\<lparr>camera_ready := True\<rparr>) cs)\<rparr>)\<rparr>,
              False)))"

text \<open>\<open>save_game_instance_to_db\<close> (source lines 722-748).\<close>

definition save_game_instance_to_db :: "string \<Rightarrow> coord \<Rightarrow> coord" where
  "save_game_instance_to_db code st =
    (case rooms st code of
       None \<Rightarrow> st
     | Some rm \<Rightarrow>
        (if \<not> reachable (db st) then st
         else
          (let cid = (if creator rm \<noteq> ''Unknown'' then users_tbl (db st) (creator rm) else None);
               row = \<lparr>row_id = length (rooms_tbl (db st)),
                      row_room_code = code,
                      row_game_type = (case game_type rm of None \<Rightarrow> ''Unknown'' | Some g \<Rightarrow> g),
                      row_duration = (case duration rm of None \<Rightarrow> 30 | Some d \<Rightarrow> d),
                      row_total_participants = length (participants rm),
                      row_creator_id = cid,
                      row_learning_material =
                        (case learning_material rm of None \<Rightarrow> ''alphabet'' | Some l \<Rightarrow> l)\<rparr>
           in st\<lparr>db := (db st)\<lparr>rooms_tbl := rooms_tbl (db st) @ [row]\<rparr>,
                  rooms := (rooms st)(code \<mapsto> rm\<lparr>learning_material := None\<rparr>)\<rparr>)))"

text \<open>What \<open>start_game\<close> emits.\<close>

datatype start_emit =
    StartGameCountdown string
  | NotAllCamerasReady nat nat
      \<comment> \<open>the error message \<open>Not all cameras ready. N/M ready.\<close> with \<open>N\<close> and \<open>M\<close>\<close>

definition ready_users :: "(uid option \<times> cam_entry) list \<Rightarrow> nat" where
  "ready_users cs = length (filter (\<lambda>kv. camera_ready (snd kv)) cs)"

text \<open>\<open>handle_start_game\<close> (source lines 337-360).\<close>

definition handle_start_game :: "sess \<Rightarrow> coord \<Rightarrow> coord \<times> start_emit list" where
  "handle_start_game se st =
    (if \<not> truthy_uid (s_user_id se) \<or> \<not> truthy_str (s_room se) \<or> \<not> room_in (s_room se) (rooms st)
     then (st, [])
     else
      (let code = the (s_room se);
           g0 = (case game_states st code of None \<Rightarrow> \<lparr>ongoing = None\<rparr> | Some g \<Rightarrow> g);
           st1 = st\<lparr>game_states := (game_states st)(code \<mapsto> g0\<lparr>ongoing := Some True\<rparr>)\<rparr>;
           rm = the (rooms st1 code);
           cs = (case camera_status rm of None \<Rightarrow> [] | Some c \<Rightarrow> c);
           total_users = length cs;
           ready = ready_users cs
       in if ready = total_users \<and> total_users > 0 then
            (save_game_instance_to_db code
               (st1\<lparr>rooms := (rooms st1)(code \<mapsto> rm\<lparr>scores_saved := Some False\<rparr>)\<rparr>),
             [StartGameCountdown code])
          else (st1, [NotAllCamerasReady ready total_users])))"

text \<open>
  How one call of \<open>save_game_results\<close> ends. \<open>Saved rows\<close> is the one path on which
  rows are inserted into \<open>game_sessions\<close>.
\<close>

datatype save_outcome =
    NoScores
  | AlreadySaved
  | StoreFailed
  | Waiting
  | NoRoomRecord
  | Saved "score_row list"

text \<open>The most recent row of the \<open>rooms\<close> table for a room code.\<close>

definition latest_room_row :: "db_room_row list \<Rightarrow> string \<Rightarrow> db_room_row option" where
  "latest_room_row tbl code =
    (case filter (\<lambda>r. row_room_code r = code) (rev tbl) of [] \<Rightarrow> None | r # _ \<Rightarrow> Some r)"

text \<open>\<open>save_game_results\<close> (source lines 669-720).\<close>

definition save_game_results :: "string option \<Rightarrow> coord \<Rightarrow> coord \<times> save_outcome" where
  "save_game_results r st =
    (case (case r of None \<Rightarrow> None | Some code \<Rightarrow> rooms st code) of
       None \<Rightarrow> (st, NoScores)
     | Some rm \<Rightarrow>
        (case final_scores rm of
           None \<Rightarrow> (st, NoScores)
         | Some fs \<Rightarrow>
            if scores_saved rm = Some True then (st, AlreadySaved)
            else if length fs < length (participants rm) then (st, Waiting)
            else if \<not> reachable (db st) then (st, StoreFailed)
            else
             (case latest_room_row (rooms_tbl (db st)) (the r) of
                None \<Rightarrow> (st, NoRoomRecord)
              | Some row \<Rightarrow>
                 (let cp = (case creator_participated rm of None \<Rightarrow> True | Some b \<Rightarrow> b);
                      kept = filter (\<lambda>kv. \<not> (fst kv = row_creator_id row \<and> \<not> cp)) fs;
                      new_rows = map (\<lambda>kv. \<lparr>sr_user_id = fst kv, sr_room_id = row_id row,
                                              sr_score = snd kv\<rparr>) kept
                  in (st\<lparr>db := (db st)\<lparr>game_sessions_tbl := game_sessions_tbl (db st) @ new_rows\<rparr>,
                         rooms := (rooms st)(the r \<mapsto> rm\<lparr>scores_saved := Some True,
                                                              final_scores := Some []\<rparr>)\<rparr>,
                      Saved new_rows)))))"

text \<open>
  How one \<open>end_game\<close> event ends: the room is not in \<open>game_states\<close> and nothing
  happens, the handler raises \<open>KeyError\<close> on \<open>rooms[room]\<close>, or it reaches
  \<open>save_game_results\<close>.
\<close>

datatype end_outcome = Ignored | RaisedKeyError | Reached save_outcome

text \<open>
  The first half of \<open>handle_end_game\<close> (source lines 390-396), for a room that is in
  \<open>game_states\<close>: clear the \<open>ongoing\<close> flag and store the score under the sender's
  user id. The argument \<open>score\<close> is \<open>Some v\<close> when \<open>data\<close> is a non-empty
  dictionary with the key \<open>final_score\<close>. The result is the state and whether
  \<open>rooms[room]\<close> raised \<open>KeyError\<close>.
\<close>

definition record_final_score :: "sess \<Rightarrow> int option \<Rightarrow> coord \<Rightarrow> coord \<times> bool" where
  "record_final_score se score st =
    (let code = the (s_room se);
         st1 = st\<lparr>game_states := (game_states st)(code \<mapsto> (the (game_states st code))\<lparr>ongoing := Some False\<rparr>)\<rparr>
     in case score of
          None \<Rightarrow> (st1, False)
        | Some v \<Rightarrow>
           (case rooms st1 code of
              None \<Rightarrow> (st1, True)
            | Some rm \<Rightarrow>
               (let fs = (case final_scores rm of None \<Rightarrow> [] | Some l \<Rightarrow> l)
                in (st1\<lparr>rooms := (rooms st1)(code \<mapsto>
                         rm\<lparr>final_scores := Some (AList.update (s_user_id se) v fs)\<rparr>)\<rparr>, False))))"

text \<open>\<open>handle_end_game\<close> (source lines 383-398).\<close>

definition handle_end_game :: "sess \<Rightarrow> int option \<Rightarrow> coord \<Rightarrow> coord \<times> end_outcome" where
  "handle_end_game se score st =
    (if \<not> room_in (s_room se) (game_states st) then (st, Ignored)
     else
      (let (st1, raised) = record_final_score se score st
       in if raised then (st1, RaisedKeyError)
          else (let (st2, out) = save_game_results (s_room se) st1 in (st2, Reached out))))"

text \<open>A run of \<open>end_game\<close> events; the outcomes are collected in order.\<close>

fun end_game_run :: "(sess \<times> int option) list \<Rightarrow> coord \<Rightarrow> coord \<times> end_outcome list" where
  "end_game_run [] st = (st, [])"
| "end_game_run (ev # evs) st =
    (let (st1, out) = handle_end_game (fst ev) (snd ev) st;
         (st2, outs) = end_game_run evs st1
     in (st2, out # outs))"

fun is_saved :: "end_outcome \<Rightarrow> bool" where
  "is_saved (Reached (Saved rows)) = True"
| "is_saved _ = False"

definition persist_count :: "end_outcome list \<Rightarrow> nat" where
  "persist_count outs = length (filter is_saved outs)"

text \<open>Views of one room's entry, used to state the properties of the end-of-game path.\<close>

definition is_saved_flag :: "coord \<Rightarrow> string \<Rightarrow> bool" where
  "is_saved_flag st code =
    (case rooms st code of None \<Rightarrow> False | Some rm \<Rightarrow> scores_saved rm = Some True)"

definition has_scores :: "coord \<Rightarrow> string \<Rightarrow> bool" where
  "has_scores st code =
    (case rooms st code of None \<Rightarrow> False | Some rm \<Rightarrow> final_scores rm \<noteq> None)"

definition scores_of :: "coord \<Rightarrow> string \<Rightarrow> (uid option \<times> int) list" where
  "scores_of st code =
    (case rooms st code of None \<Rightarrow> []
     | Some rm \<Rightarrow> (case final_scores rm of None \<Rightarrow> [] | Some l \<Rightarrow> l))"

definition n_participants :: "coord \<Rightarrow> string \<Rightarrow> nat" where
  "n_participants st code =
    (case rooms st code of None \<Rightarrow> 0 | Some rm \<Rightarrow> length (participants rm))"

text \<open>
  A room in which a game has been started and whose store answers: the room exists and is
  in \<open>game_states\<close>, the store is reachable and holds a \<open>rooms\<close> row for the code
  (as \<open>save_game_instance_to_db\<close> inserts), and \<open>final_scores\<close> is a dictionary
  (its keys are distinct).
\<close>

definition room_ok :: "coord \<Rightarrow> string \<Rightarrow> bool" where
  "room_ok st code \<longleftrightarrow>
     rooms st code \<noteq> None \<and> game_states st code \<noteq> None \<and> reachable (db st) \<and>
     latest_room_row (rooms_tbl (db st)) code \<noteq> None \<and>
     distinct (map fst (scores_of st code))"

text \<open>The user ids that report a final score in a list of \<open>end_game\<close> events.\<close>

definition scorers :: "(sess \<times> int option) list \<Rightarrow> uid option set" where
  "scorers evs = (\<lambda>e. s_user_id (fst e)) ` {e \<in> set evs. snd e \<noteq> None}"


text \<open>
  The rows that one outcome, and a list of outcomes, append to the \<open>game_sessions\<close>
  table, and the rows that \<open>save_game_results\<close> builds from a score dictionary: one row
  per entry in dictionary order, leaving out the creator's entry when the creator opted
  out of participation.
\<close>

fun rows_of :: "end_outcome \<Rightarrow> score_row list" where
  "rows_of (Reached (Saved rows)) = rows"
| "rows_of _ = []"

definition appended_rows :: "end_outcome list \<Rightarrow> score_row list" where
  "appended_rows outs = concat (map rows_of outs)"

definition score_rows :: "nat \<Rightarrow> uid option \<Rightarrow> bool \<Rightarrow> (uid option \<times> int) list \<Rightarrow> score_row list" where
  "score_rows room_id cid participated fs =
     map (\<lambda>kv. \<lparr>sr_user_id = fst kv, sr_room_id = room_id, sr_score = snd kv\<rparr>)
       (filter (\<lambda>kv. \<not> (fst kv = cid \<and> \<not> participated)) fs)"

text \<open>
  The scenario of the specification, built with the handlers: room \<open>ABCDEF\<close> is created
  by \<open>u1\<close>; \<open>u1\<close>, \<open>u2\<close> and \<open>u3\<close> join; \<open>u1\<close> and \<open>u2\<close> report their
  cameras ready; later \<open>u3\<close> does, \<open>u1\<close> starts the game, and the end-of-game events
  arrive with \<open>u1\<close>'s event delivered twice.
\<close>

definition mk_sess :: "uid \<Rightarrow> string \<Rightarrow> string \<Rightarrow> sess" where
  "mk_sess u code name = \<lparr>s_user_id = Some u, s_room = Some code, s_name = Some name\<rparr>"

definition coord_init :: coord where
  "coord_init = \<lparr>rooms = Map.empty, game_states = Map.empty,
     db = \<lparr>reachable = True, users_tbl = [''u1'' \<mapsto> 1, ''u2'' \<mapsto> 2, ''u3'' \<mapsto> 3],
           rooms_tbl = [], game_sessions_tbl = []\<rparr>\<rparr>"

definition scenario_joined :: coord where
  "scenario_joined =
     handle_join (mk_sess 3 ''ABCDEF'' ''u3'') ''ABCDEF'' ''u3''
      (handle_join (mk_sess 2 ''ABCDEF'' ''u2'') ''ABCDEF'' ''u2''
        (handle_join (mk_sess 1 ''ABCDEF'' ''u1'') ''ABCDEF'' ''u1''
          (create_room ''ABCDEF'' ''u1'' 1 coord_init)))"

definition scenario_two_ready :: coord where
  "scenario_two_ready =
     fst (handle_camera_ready (mk_sess 2 ''ABCDEF'' ''u2'')
       (fst (handle_camera_ready (mk_sess 1 ''ABCDEF'' ''u1'') scenario_joined)))"

definition scenario_started :: coord where
  "scenario_started =
     fst (handle_start_game (mk_sess 1 ''ABCDEF'' ''u1'')
       (fst (handle_camera_ready (mk_sess 3 ''ABCDEF'' ''u3'') scenario_two_ready)))"

definition scenario_end_events :: "(sess \<times> int option) list" where
  "scenario_end_events =
     [(mk_sess 1 ''ABCDEF'' ''u1'', Some 10), (mk_sess 2 ''ABCDEF'' ''u2'', Some 20),
      (mk_sess 1 ''ABCDEF'' ''u1'', Some 15), (mk_sess 3 ''ABCDEF'' ''u3'', Some 5)]"

section \<open>Feature extractor (improved\_fsl\_feature\_extractor.py)\<close>

text \<open>
  The frames given to the extractor are JSON-like dictionaries. A frame has an optional key
  \<open>hands\<close>, a hand an optional key \<open>landmarks\<close>, a landmark optional keys \<open>x\<close>,
  \<open>y\<close>, \<open>z\<close>; \<open>None\<close> is a missing key. \<open>BadFrame\<close>, \<open>BadHand\<close> and
  \<open>BadLandmark\<close> stand for values that are not dictionaries (\<open>.get\<close> raises on them),
  \<open>JBad\<close> for a coordinate on which \<open>float()\<close> raises.

  Coordinates are real numbers: the rounding of \<open>float32\<close>, infinities and NaN are not
  modelled.
\<close>

datatype jval = JNum real | JBad

datatype landmark = Landmark "jval option" "jval option" "jval option" | BadLandmark

datatype hand = Hand "landmark list option" | BadHand

datatype frame = FrameD "hand list option" | BadFrame

text \<open>
  The landmarks array of shape (frames, 2, 21, 3) as nested lists; a point is the list of
  its coordinates, so that the slice \<open>[:2]\<close> is \<open>take 2\<close>.
\<close>

type_synonym point = "real list"
type_synonym larray = "point list list list"

subsection \<open>Numerical helpers (numpy, scipy)\<close>

definition mean :: "real list \<Rightarrow> real" where
  "mean xs = sum_list xs / real (length xs)"

definition std :: "real list \<Rightarrow> real" where
  "std xs = sqrt (mean (map (\<lambda>x. (x - mean xs)\<^sup>2) xs))"

definition mean_or0 :: "real list \<Rightarrow> real" where
  "mean_or0 xs = (if xs = [] then 0 else mean xs)"

definition std_or0 :: "real list \<Rightarrow> real" where
  "std_or0 xs = (if xs = [] then 0 else std xs)"

text \<open>\<open>np.allclose(v, 0)\<close> with the default tolerances: every entry is at most \<open>1e-8\<close> in absolute value.\<close>

definition allclose0 :: "point \<Rightarrow> bool" where
  "allclose0 v = list_all (\<lambda>x. \<bar>x\<bar> \<le> 1 / 10 ^ 8) v"

definition vsub :: "point \<Rightarrow> point \<Rightarrow> point" where
  "vsub p q = map2 (-) p q"

definition vnorm :: "point \<Rightarrow> real" where
  "vnorm v = sqrt (sum_list (map (\<lambda>x. x\<^sup>2) v))"

definition euclidean :: "point \<Rightarrow> point \<Rightarrow> real" where
  "euclidean p q = vnorm (vsub p q)"

definition dot :: "point \<Rightarrow> point \<Rightarrow> real" where
  "dot p q = sum_list (map2 (*) p q)"

definition arctan2 :: "real \<Rightarrow> real \<Rightarrow> real" where
  "arctan2 y x =
    (if x > 0 then arctan (y / x)
     else if x < 0 \<and> y \<ge> 0 then arctan (y / x) + pi
     else if x < 0 then arctan (y / x) - pi
     else if y > 0 then pi / 2
     else if y < 0 then - pi / 2
     else 0)"

fun list_max :: "real list \<Rightarrow> real" where
  "list_max [] = 0"
| "list_max [x] = x"
| "list_max (x # xs) = max x (list_max xs)"

fun list_min :: "real list \<Rightarrow> real" where
  "list_min [] = 0"
| "list_min [x] = x"
| "list_min (x # xs) = min x (list_min xs)"

text \<open>Pearson correlation, the off-diagonal entry of \<open>np.corrcoef(a, b)\<close>.\<close>

definition corrcoef :: "real list \<Rightarrow> real list \<Rightarrow> real" where
  "corrcoef a b =
     mean (map2 (\<lambda>x y. (x - mean a) * (y - mean b)) a b) / (std a * std b)"

text \<open>Consecutive pairs \<open>(xs[i-1], xs[i])\<close> for \<open>i = 1 .. len-1\<close>.\<close>

definition pairs :: "'a list \<Rightarrow> ('a \<times> 'a) list" where
  "pairs xs = zip xs (tl xs)"

text \<open>Consecutive triples \<open>(xs[i-1], xs[i], xs[i+1])\<close> for \<open>i = 1 .. len-2\<close>.\<close>

definition triples :: "'a list \<Rightarrow> ('a \<times> 'a \<times> 'a) list" where
  "triples xs = zip xs (zip (tl xs) (tl (tl xs)))"

text \<open>The shape entries \<open>shape[1]\<close> and \<open>shape[2]\<close>.\<close>

definition n_hands :: "larray \<Rightarrow> nat" where
  "n_hands arr = (case arr of [] \<Rightarrow> 0 | fr # _ \<Rightarrow> length fr)"

definition n_landmarks :: "larray \<Rightarrow> nat" where
  "n_landmarks arr = (case arr of [] \<Rightarrow> 0 | fr # _ \<Rightarrow> (case fr of [] \<Rightarrow> 0 | h # _ \<Rightarrow> length h))"

definition n_coords :: "larray \<Rightarrow> nat" where
  "n_coords arr =
    (case arr of [] \<Rightarrow> 0 | fr # _ \<Rightarrow>
      (case fr of [] \<Rightarrow> 0 | h # _ \<Rightarrow> (case h of [] \<Rightarrow> 0 | p # _ \<Rightarrow> length p)))"

text \<open>\<open>while len(features) < n: features.append(0)\<close>, then \<open>features[:n]\<close>.\<close>

definition pad_trunc :: "nat \<Rightarrow> real list \<Rightarrow> real list" where
  "pad_trunc n xs = take n (xs @ replicate (n - length xs) 0)"

subsection \<open>Preprocessing\<close>

text \<open>\<open>float(landmark.get(k, 0))\<close>.\<close>

fun to_float :: "jval option \<Rightarrow> real option" where
  "to_float None = Some 0"
| "to_float (Some (JNum x)) = Some x"
| "to_float (Some JBad) = None"

fun convert_landmark :: "landmark \<Rightarrow> point option" where
  "convert_landmark BadLandmark = None"
| "convert_landmark (Landmark x y z) =
    (case (to_float x, to_float y, to_float z) of
       (Some a, Some b, Some c) \<Rightarrow> Some [a, b, c]
     | _ \<Rightarrow> None)"

definition zero_landmark :: landmark where
  "zero_landmark = Landmark (Some (JNum 0)) (Some (JNum 0)) (Some (JNum 0))"

definition zero_hand :: hand where
  "zero_hand = Hand (Some (replicate 21 zero_landmark))"

text \<open>\<open>while len(xs) < n: xs.append(x)\<close>.\<close>

definition pad_to :: "nat \<Rightarrow> 'a \<Rightarrow> 'a list \<Rightarrow> 'a list" where
  "pad_to n x xs = xs @ replicate (n - length xs) x"

text \<open>
  One hand of a frame (source lines 183-198). The landmark list is padded in place: the
  first component is the hand dictionary as the loop leaves it. A missing key
  \<open>landmarks\<close> gives a fresh default list, which is padded but not stored in the
  dictionary.
\<close>

fun process_hand :: "hand \<Rightarrow> (hand \<times> point list) option" where
  "process_hand BadHand = None"
| "process_hand (Hand lo) =
    (let lms = pad_to 21 zero_landmark (case lo of None \<Rightarrow> [] | Some l \<Rightarrow> l)
     in case those (map convert_landmark (take 21 lms)) of
          None \<Rightarrow> None
        | Some pts \<Rightarrow> Some (Hand (case lo of None \<Rightarrow> None | Some _ \<Rightarrow> Some lms), pts))"

text \<open>
  One frame (source lines 175-200). The list under \<open>hands\<close> is padded in place to two
  hands, so the frame dictionary that the caller still holds has at least two hands
  afterwards.
\<close>

fun process_frame :: "frame \<Rightarrow> (frame \<times> point list list) option" where
  "process_frame BadFrame = None"
| "process_frame (FrameD ho) =
    (let hs = pad_to 2 zero_hand (case ho of None \<Rightarrow> [] | Some h \<Rightarrow> h)
     in case those (map process_hand (take 2 hs)) of
          None \<Rightarrow> None
        | Some rs \<Rightarrow>
           Some (FrameD (case ho of None \<Rightarrow> None | Some _ \<Rightarrow> Some (map fst rs @ drop 2 hs)),
                 map snd rs))"

text \<open>\<open>np.convolve(seq, ones(3)/3, mode='same')\<close> for a sequence of at least 3 entries.\<close>

definition conv_same3 :: "real list \<Rightarrow> real list" where
  "conv_same3 xs =
    map (\<lambda>i. ((if i = 0 then 0 else xs ! (i - 1)) + xs ! i
               + (if i + 1 < length xs then xs ! (i + 1) else 0)) / 3) [0..<length xs]"

text \<open>\<open>smooth_sequence\<close> (source lines 212-232).\<close>

definition series :: "larray \<Rightarrow> nat \<Rightarrow> nat \<Rightarrow> nat \<Rightarrow> real list" where
  "series arr h l c = map (\<lambda>fr. fr ! h ! l ! c) arr"

definition smooth_sequence :: "larray \<Rightarrow> larray" where
  "smooth_sequence arr =
    (if length arr < 3 then arr
     else map (\<lambda>i. map (\<lambda>h. map (\<lambda>l. map (\<lambda>c.
                 (if list_ex (\<lambda>x. x \<noteq> 0) (series arr h l c)
                  then conv_same3 (series arr h l c) ! i
                  else arr ! i ! h ! l ! c))
               [0..<n_coords arr]) [0..<n_landmarks arr]) [0..<n_hands arr]) [0..<length arr])"

text \<open>\<open>normalize_sequence\<close> (source lines 234-248).\<close>

definition normalize_hand :: "point list \<Rightarrow> point list" where
  "normalize_hand hd_pts =
    (let wrist = hd_pts ! 0
     in if list_ex (\<lambda>x. x \<noteq> 0) wrist then map (\<lambda>p. vsub p wrist) hd_pts else hd_pts)"

definition normalize_sequence :: "larray \<Rightarrow> larray" where
  "normalize_sequence arr = map (map normalize_hand) arr"

text \<open>
  \<open>preprocess_sequence\<close> (source lines 170-210). \<open>None\<close> is the \<open>except\<close> branch. On
  success the result is the list of frame dictionaries as the loop leaves them, and the
  smoothed and normalised array.
\<close>

definition preprocess_sequence :: "frame list \<Rightarrow> (frame list \<times> larray) option" where
  "preprocess_sequence frames =
    (case those (map process_frame frames) of
       None \<Rightarrow> None
     | Some rs \<Rightarrow> Some (map fst rs, normalize_sequence (smooth_sequence (map snd rs))))"

subsection \<open>Feature families\<close>

text \<open>
  Every family loops over the two hands and ends with the same padding and truncation to
  its fixed length. The \<open>except\<close> branches inside the loops are not modelled: on an
  array of shape (n, 2, 21, 3) the numpy operations of the bodies warn but never raise.
  \<open>hand_xy arr h\<close> is the slice \<open>landmarks_sequence[:, h, :, :2]\<close>.
\<close>

definition hand_xy :: "larray \<Rightarrow> nat \<Rightarrow> point list list" where
  "hand_xy arr h = map (\<lambda>fr. map (take 2) (fr ! h)) arr"

text \<open>\<open>np.any(hand_landmarks)\<close>.\<close>

definition any_nonzero :: "point list list \<Rightarrow> bool" where
  "any_nonzero hl = list_ex (list_ex (list_ex (\<lambda>x. x \<noteq> 0))) hl"

text \<open>
  The distances between landmarks \<open>a\<close> and \<open>b\<close> over the frames in which neither is
  close to the origin.
\<close>

definition valid_dists :: "point list list \<Rightarrow> nat \<Rightarrow> nat \<Rightarrow> real list" where
  "valid_dists hl a b =
    map (\<lambda>f. euclidean (f ! a) (f ! b))
      (filter (\<lambda>f. \<not> (allclose0 (f ! a) \<or> allclose0 (f ! b))) hl)"

definition frame_spread :: "point list \<Rightarrow> real list" where
  "frame_spread f =
    map (\<lambda>ab. euclidean (f ! fst ab) (f ! snd ab))
      (filter (\<lambda>ab. \<not> (allclose0 (f ! fst ab) \<or> allclose0 (f ! snd ab)))
         [(4, 8), (8, 12), (12, 16), (16, 20)])"

definition palm_stats :: "point list list \<Rightarrow> real list" where
  "palm_stats hl =
    (let palm_positions = filter (\<lambda>p. \<not> allclose0 p) (map (map mean) hl);
         c0 = map (\<lambda>p. p ! 0) palm_positions;
         c1 = map (\<lambda>p. p ! 1) palm_positions
     in if palm_positions \<noteq> [] then
          [mean c0, mean c1, std c0, std c1, list_max c0 - list_min c0, list_max c1 - list_min c1]
        else replicate 6 0)"

definition spatial_hand :: "larray \<Rightarrow> nat \<Rightarrow> real list" where
  "spatial_hand arr h =
    (if h \<ge> n_hands arr then replicate 15 0
     else
      (let hl = hand_xy arr h
       in if \<not> any_nonzero hl then replicate 15 0
          else
           (let orientations =
                  map (\<lambda>f. arctan2 (vsub (f ! 9) (f ! 0) ! 1) (vsub (f ! 9) (f ! 0) ! 0))
                    (filter (\<lambda>f. \<not> (allclose0 (f ! 0) \<or> allclose0 (f ! 9))) hl)
            in [mean_or0 (valid_dists hl 4 20),
                mean_or0 (map mean (filter (\<lambda>fs. fs \<noteq> []) (map frame_spread hl))),
                mean_or0 orientations, std_or0 orientations]
               @ palm_stats hl
               @ map (\<lambda>bt. mean_or0 (valid_dists hl (fst bt) (snd bt)))
                   [(1, 4), (5, 8), (9, 12), (13, 16), (17, 20)])))"

text \<open>\<open>extract_spatial_features\<close> (source lines 250-345).\<close>

definition extract_spatial_features :: "larray \<Rightarrow> real list" where
  "extract_spatial_features arr = pad_trunc 30 (spatial_hand arr 0 @ spatial_hand arr 1)"

text \<open>\<open>landmarks_sequence[:, h, 0, :2]\<close>: the wrist positions of hand \<open>h\<close>.\<close>

definition wrist_positions :: "larray \<Rightarrow> nat \<Rightarrow> point list" where
  "wrist_positions arr h = map (\<lambda>fr. take 2 (fr ! h ! 0)) arr"

text \<open>
  The frame-to-frame wrist displacements, over the pairs of consecutive frames in which
  neither wrist position is close to the origin.
\<close>

definition velocities :: "point list \<Rightarrow> real list" where
  "velocities wp =
    map (\<lambda>ab. euclidean (snd ab) (fst ab))
      (filter (\<lambda>ab. \<not> (allclose0 (snd ab) \<or> allclose0 (fst ab))) (pairs wp))"

definition temporal_hand :: "larray \<Rightarrow> nat \<Rightarrow> real list" where
  "temporal_hand arr h =
    (if h \<ge> n_hands arr \<or> length arr < 2 then replicate 6 0
     else
      (let v = velocities (wrist_positions arr h);
           accelerations = (if length v > 1 then map (\<lambda>ab. \<bar>snd ab - fst ab\<bar>) (pairs v) else [])
       in (if v \<noteq> [] then [mean v, std v] else [0, 0])
          @ (if accelerations \<noteq> [] then [mean accelerations, list_max accelerations] else [0, 0])
          @ [if length v > 1
             then real (length (filter (\<lambda>ab. \<bar>snd ab - fst ab\<bar> > std v * (1 / 2)) (pairs v)))
             else 0]
          @ [if length v > 2 then max 0 (1 - std v / (mean v + 1 / 10 ^ 8)) else 0]))"

text \<open>\<open>extract_enhanced_temporal_features\<close> (source lines 347-407).\<close>

definition extract_enhanced_temporal_features :: "larray \<Rightarrow> real list" where
  "extract_enhanced_temporal_features arr = pad_trunc 12 (temporal_hand arr 0 @ temporal_hand arr 1)"

definition geometric_hand :: "larray \<Rightarrow> nat \<Rightarrow> real list" where
  "geometric_hand arr h =
    (if h \<ge> n_hands arr then [0, 0]
     else
      (let hl = hand_xy arr h
       in if \<not> any_nonzero hl then [0, 0]
          else [mean_or0 (valid_dists hl 4 8), mean_or0 (valid_dists hl 0 12)]))"

text \<open>\<open>extract_geometric_features\<close> (source lines 409-447).\<close>

definition extract_geometric_features :: "larray \<Rightarrow> real list" where
  "extract_geometric_features arr = pad_trunc 4 (geometric_hand arr 0 @ geometric_hand arr 1)"

text \<open>The rows that are not exactly zero: \<open>a[~np.all(a == 0, axis=1)]\<close>.\<close>

definition nonzero_rows :: "point list \<Rightarrow> point list" where
  "nonzero_rows ps = filter (\<lambda>p. \<not> list_all (\<lambda>x. x = 0) p) ps"

definition statistical_hand :: "larray \<Rightarrow> nat \<Rightarrow> real list" where
  "statistical_hand arr h =
    (if h \<ge> n_hands arr then [0, 0, 0, 0]
     else
      (let hl = hand_xy arr h
       in if \<not> any_nonzero hl then [0, 0, 0, 0]
          else
           (let valid = nonzero_rows (concat hl);
                xs = map (\<lambda>p. p ! 0) valid;
                ys = map (\<lambda>p. p ! 1) valid
            in if valid \<noteq> [] then [mean xs, mean ys, std xs, std ys] else [0, 0, 0, 0])))"

text \<open>\<open>extract_statistical_features\<close> (source lines 449-484).\<close>

definition extract_statistical_features :: "larray \<Rightarrow> real list" where
  "extract_statistical_features arr = pad_trunc 8 (statistical_hand arr 0 @ statistical_hand arr 1)"

subsection \<open>Trajectory features\<close>

definition centroid :: "point list \<Rightarrow> point" where
  "centroid ps = [mean (map (\<lambda>p. p ! 0) ps), mean (map (\<lambda>p. p ! 1) ps)]"

definition centroid_dists :: "point list \<Rightarrow> real list" where
  "centroid_dists ps = map (\<lambda>p. vnorm (vsub p (centroid ps))) ps"

definition step_lengths :: "point list \<Rightarrow> real list" where
  "step_lengths ps = map (\<lambda>ab. vnorm (vsub (snd ab) (fst ab))) (pairs ps)"

text \<open>
  The angle between two displacement vectors, as every angle loop computes it:
  \<open>arccos(clip(dot / (norm1 * norm2), -1, 1))\<close>.
\<close>

definition turn_angle :: "point \<Rightarrow> point \<Rightarrow> real" where
  "turn_angle v1 v2 = arccos (max (-1) (min 1 (dot v1 v2 / (vnorm v1 * vnorm v2))))"

text \<open>The angles at the inner points, where both adjacent steps have positive length.\<close>

definition turn_angles :: "point list \<Rightarrow> real list" where
  "turn_angles ps =
    map (\<lambda>t. turn_angle (vsub (fst (snd t)) (fst t)) (vsub (snd (snd t)) (fst (snd t))))
      (filter (\<lambda>t. vnorm (vsub (fst (snd t)) (fst t)) > 0 \<and> vnorm (vsub (snd (snd t)) (fst (snd t))) > 0)
         (triples ps))"

definition calculate_circularity :: "point list \<Rightarrow> real" where
  "calculate_circularity ps =
    (if length ps < 5 then 0
     else
      (let radii = centroid_dists ps
       in if mean radii = 0 then 0
          else max 0 (min 1 (1 - std radii / mean radii))))"

definition calculate_angularity :: "point list \<Rightarrow> real" where
  "calculate_angularity ps =
    (if length ps < 4 then 0
     else real (length (filter (\<lambda>a. a < 2 * pi / 3) (turn_angles ps)))
            / real (max 1 (length ps - 2)))"

definition count_corners :: "point list \<Rightarrow> real" where
  "count_corners ps =
    (if length ps < 6 then 0
     else
      (let cand = filter (\<lambda>i. vnorm (vsub (ps ! i) (ps ! (i - 2))) > 0
                               \<and> vnorm (vsub (ps ! (i + 2)) (ps ! i)) > 0) [2..<length ps - 2];
           corners = length (filter (\<lambda>i. turn_angle (vsub (ps ! i) (ps ! (i - 2)))
                                                     (vsub (ps ! (i + 2)) (ps ! i)) > pi / 3) cand)
       in real (min corners 8)))"

definition calculate_path_regularity :: "point list \<Rightarrow> real" where
  "calculate_path_regularity ps =
    (if length ps < 3 then 0
     else
      (let distances = step_lengths ps
       in if distances = [] \<or> mean distances = 0 then 0
          else max 0 (min 1 (1 - std distances / mean distances))))"

definition count_direction_changes :: "point list \<Rightarrow> real" where
  "count_direction_changes ps =
    (if length ps < 3 then 0
     else real (min (length (filter (\<lambda>a. a > pi / 6) (turn_angles ps))) 20) / 20)"

definition calculate_straightness :: "point list \<Rightarrow> real" where
  "calculate_straightness ps =
    (if length ps < 2 then 0
     else
      (let total_path_length = sum_list (step_lengths ps);
           direct_distance = vnorm (vsub (last ps) (hd ps))
       in if total_path_length = 0 then 0
          else min 1 (direct_distance / total_path_length)))"

definition calculate_curvature_variance :: "point list \<Rightarrow> real" where
  "calculate_curvature_variance ps =
    (if length ps < 4 then 0
     else
      std_or0
        (map (\<lambda>t. (let v1 = vsub (fst (snd t)) (fst t);
                         v2 = vsub (snd (snd t)) (fst (snd t))
                     in \<bar>v1 ! 0 * v2 ! 1 - v1 ! 1 * v2 ! 0\<bar> / vnorm v1 ^ 3))
           (filter (\<lambda>t. vnorm (vsub (fst (snd t)) (fst t)) > 0) (triples ps))))"

definition calculate_symmetry_score :: "point list \<Rightarrow> real" where
  "calculate_symmetry_score ps =
    (if length ps < 4 then 0
     else
      (let distances = centroid_dists ps;
           mid = length distances div 2;
           first_half = take mid distances;
           second_half = rev (drop (length distances - mid) distances)
       in if length first_half \<noteq> length second_half \<or> first_half = [] then 0
          else if std first_half > 0 \<and> std second_half > 0
               then max 0 (corrcoef first_half second_half)
               else 0))"

definition trajectory_hand :: "larray \<Rightarrow> nat \<Rightarrow> real list" where
  "trajectory_hand arr h =
    (if h \<ge> n_hands arr then replicate 8 0
     else
      (let valid_positions = filter (\<lambda>p. \<not> allclose0 p) (wrist_positions arr h)
       in if length valid_positions < 5 then replicate 8 0
          else [calculate_circularity valid_positions,
                calculate_angularity valid_positions,
                count_corners valid_positions,
                calculate_path_regularity valid_positions,
                count_direction_changes valid_positions,
                calculate_straightness valid_positions,
                calculate_curvature_variance valid_positions,
                calculate_symmetry_score valid_positions]))"

text \<open>\<open>extract_trajectory_features\<close> (source lines 486-550).\<close>

definition extract_trajectory_features :: "larray \<Rightarrow> real list" where
  "extract_trajectory_features arr = pad_trunc 16 (trajectory_hand arr 0 @ trajectory_hand arr 1)"

subsection \<open>Global features\<close>

text \<open>\<open>calculate_hand_motion\<close> (source lines 801-817).\<close>

definition calculate_hand_motion :: "larray \<Rightarrow> nat \<Rightarrow> real" where
  "calculate_hand_motion arr h =
    (if h \<ge> n_hands arr \<or> length arr < 2 then 0
     else sum_list (velocities (wrist_positions arr h)))"

text \<open>
  The two velocity lists of \<open>calculate_hand_synchronization\<close> are built in one loop with
  independent tests, so each is the list \<open>velocities\<close> of its hand.
\<close>

definition calculate_hand_synchronization :: "larray \<Rightarrow> real" where
  "calculate_hand_synchronization arr =
    (if n_hands arr < 2 \<or> length arr < 3 then 0
     else
      (let left_velocities = velocities (wrist_positions arr 0);
           right_velocities = velocities (wrist_positions arr 1);
           min_len = min (length left_velocities) (length right_velocities)
       in if min_len > 2 then
            (let left_vel = take min_len left_velocities;
                 right_vel = take min_len right_velocities
             in if std left_vel > 0 \<and> std right_vel > 0
                then max 0 (corrcoef left_vel right_vel)
                else 0)
          else 0))"

text \<open>\<open>calculate_gesture_complexity\<close> (source lines 857-904).\<close>

definition calculate_gesture_complexity :: "larray \<Rightarrow> real" where
  "calculate_gesture_complexity arr =
    (let total_possible = length arr * n_hands arr * n_landmarks arr;
         active_landmarks = length (filter (\<lambda>p. \<not> allclose0 p) (concat (concat arr)));
         factor1 = (if total_possible > 0 then [real active_landmarks / real total_possible] else []);
         motion_variances = map (calculate_hand_motion arr) [0..<n_hands arr];
         factor2 = (if motion_variances \<noteq> []
                    then [min 1 (if length motion_variances > 1 then std motion_variances else 0)]
                    else []);
         temporal_changes =
           sum_list (map (\<lambda>hl.
               (let valid_positions = nonzero_rows (map (\<lambda>fr. take 2 (fr ! fst hl ! snd hl)) arr)
                in if length valid_positions > 1
                   then mean [std (map (\<lambda>p. p ! 0) valid_positions),
                              std (map (\<lambda>p. p ! 1) valid_positions)]
                   else 0))
             (List.product [0..<n_hands arr] [0..<n_landmarks arr]));
         complexity_factors = factor1 @ factor2 @ [min 1 (temporal_changes / 10)]
     in mean_or0 complexity_factors)"

text \<open>\<open>len(frame.get('hands', []))\<close>.\<close>

fun hands_len :: "frame \<Rightarrow> nat" where
  "hands_len (FrameD None) = 0"
| "hands_len (FrameD (Some hs)) = length hs"
| "hands_len BadFrame = 0"

definition separations :: "larray \<Rightarrow> real list" where
  "separations arr =
    map (\<lambda>fr. vnorm (vsub (take 2 (fr ! 0 ! 0)) (take 2 (fr ! 1 ! 0))))
      (filter (\<lambda>fr. \<not> (allclose0 (take 2 (fr ! 0 ! 0)) \<or> allclose0 (take 2 (fr ! 1 ! 0)))) arr)"

text \<open>
  \<open>extract_global_features\<close> (source lines 738-799). \<open>frames\<close> is the list of frame
  dictionaries that was given to \<open>extract_sequence_features\<close>, in the state in which
  \<open>preprocess_sequence\<close> has left them.
\<close>

definition extract_global_features :: "larray \<Rightarrow> frame list \<Rightarrow> real list" where
  "extract_global_features arr frames =
    (let avg_hands = mean (map (\<lambda>f. real (hands_len f)) frames);
         seps = separations arr;
         separation_change =
           (if n_hands arr \<ge> 2 then (if length seps > 1 then \<bar>last seps - hd seps\<bar> else 0) else 0);
         left_motion = calculate_hand_motion arr 0;
         right_motion = calculate_hand_motion arr 1;
         total_motion = left_motion + right_motion;
         relative_motion = (if total_motion > 0 then \<bar>left_motion - right_motion\<bar> / total_motion else 0);
         dominant_activity = (if total_motion > 0 then max left_motion right_motion / total_motion else 0)
     in pad_trunc 6
          [avg_hands, separation_change, relative_motion, dominant_activity,
           calculate_hand_synchronization arr, calculate_gesture_complexity arr])"

subsection \<open>The feature vector\<close>

text \<open>
  \<open>extract_sequence_features\<close> (source lines 123-168), with every family enabled as the
  constructor configures it. \<open>None\<close> is the return value \<open>None\<close>.
\<close>

definition extract_sequence_features :: "frame list \<Rightarrow> real list option" where
  "extract_sequence_features frames =
    (if length frames < 5 then None
     else case preprocess_sequence frames of
            None \<Rightarrow> None
          | Some (frames', arr) \<Rightarrow>
             Some (extract_spatial_features arr
                   @ extract_enhanced_temporal_features arr
                   @ extract_geometric_features arr
                   @ extract_statistical_features arr
                   @ extract_trajectory_features arr
                   @ extract_global_features arr frames'))"

text \<open>\<open>_initialize_feature_names\<close> (source lines 29-85).\<close>

definition hand_prefixes :: "string list" where
  "hand_prefixes = [''hand0_'', ''hand1_'']"

definition feature_names :: "string list" where
  "feature_names =
     concat (map (\<lambda>pre. map (\<lambda>n. pre @ n)
        [''avg_span'', ''avg_finger_spread'', ''avg_orientation'', ''std_orientation'',
         ''palm_center_x'', ''palm_center_y'', ''palm_std_x'', ''palm_std_y'',
         ''palm_range_x'', ''palm_range_y'', ''thumb_bend'', ''index_bend'',
         ''middle_bend'', ''ring_bend'', ''pinky_bend'']) hand_prefixes)
     @ concat (map (\<lambda>pre. map (\<lambda>n. pre @ n)
        [''avg_velocity'', ''std_velocity'', ''avg_acceleration'', ''max_acceleration'',
         ''velocity_changes'', ''smooth_ratio'']) hand_prefixes)
     @ concat (map (\<lambda>pre. map (\<lambda>n. pre @ n)
        [''thumb_index_dist'', ''wrist_middle_dist'']) hand_prefixes)
     @ concat (map (\<lambda>pre. map (\<lambda>n. pre @ n)
        [''mean_x'', ''mean_y'', ''std_x'', ''std_y'']) hand_prefixes)
     @ concat (map (\<lambda>pre. map (\<lambda>n. pre @ n)
        [''circularity'', ''angularity'', ''corner_count'', ''path_regularity'',
         ''direction_changes'', ''straightness'', ''curvature_variance'', ''symmetry_score''])
        hand_prefixes)
     @ [''avg_hands_detected'', ''hand_separation_change'', ''relative_motion'',
        ''dominant_hand_activity'', ''synchronization_score'', ''overall_complexity'']"

section \<open>Classifier adapter (simple\_fsl\_trainer.py, SimpleFSLPredictor)\<close>

text \<open>
  The loaded model artifact consists of scikit-learn objects that are not part of the
  repository; they are parameters of the model. \<open>n_features_in\<close> is the dimensionality
  the scaler was fitted on, \<open>scaler_transform\<close>, \<open>predict_proba\<close> and
  \<open>inverse_transform\<close> are the three calls \<open>predict\<close> makes, with \<open>None\<close> for a call
  that raises.
\<close>

record artifact =
  n_features_in :: nat
  scaler_transform :: "real list \<Rightarrow> real list option"
  predict_proba :: "real list \<Rightarrow> real list option"
  inverse_transform :: "nat \<Rightarrow> string option"
  class_names :: "string list"

text \<open>The dictionaries \<open>predict\<close> returns, by their \<open>prediction\<close> entry.\<close>

datatype presult =
    Insufficient_data
  | Model_not_loaded
  | Feature_extraction_failed
  | Prediction_error
  | Prediction string real "(string \<times> real) list"

text \<open>\<open>np.argmax\<close>: the first index of a maximal entry; it raises on an empty array.\<close>

fun argmax_from :: "real list \<Rightarrow> nat \<Rightarrow> nat \<Rightarrow> real \<Rightarrow> nat" where
  "argmax_from [] i best bv = best"
| "argmax_from (x # xs) i best bv =
    (if x > bv then argmax_from xs (Suc i) i x else argmax_from xs (Suc i) best bv)"

definition argmax :: "real list \<Rightarrow> nat option" where
  "argmax xs = (case xs of [] \<Rightarrow> None | x # rest \<Rightarrow> Some (argmax_from rest 1 0 x))"

text \<open>
  \<open>SimpleFSLPredictor.predict\<close> (source lines 253-293); the first argument is
  \<open>None\<close> when \<open>self.model\<close> is \<open>None\<close>. Every exception after the two early
  returns is caught by one handler, which returns \<open>prediction_error\<close>.
\<close>

definition predict :: "artifact option \<Rightarrow> frame list \<Rightarrow> presult" where
  "predict model sequence_frames =
    (if length sequence_frames < 5 then Insufficient_data
     else case model of
       None \<Rightarrow> Model_not_loaded
     | Some art \<Rightarrow>
        (case extract_sequence_features sequence_frames of
           None \<Rightarrow> Feature_extraction_failed
         | Some features \<Rightarrow>
            (case scaler_transform art features of
               None \<Rightarrow> Prediction_error
             | Some features_scaled \<Rightarrow>
                (case predict_proba art features_scaled of
                   None \<Rightarrow> Prediction_error
                 | Some prediction_probs \<Rightarrow>
                    (case argmax prediction_probs of
                       None \<Rightarrow> Prediction_error
                     | Some idx \<Rightarrow>
                        (case inverse_transform art idx of
                           None \<Rightarrow> Prediction_error
                         | Some predicted_sign \<Rightarrow>
                            if length (class_names art) < length prediction_probs then Prediction_error
                            else Prediction predicted_sign (prediction_probs ! idx * 100)
                                   (zip (class_names art) (map (\<lambda>p. p * 100) prediction_probs))))))))"

text \<open>
  The input validation of scikit-learn's \<open>StandardScaler.transform\<close>: a vector whose
  length is not the fitted dimensionality is rejected with \<open>ValueError\<close>.
\<close>

definition scaler_validates :: "artifact \<Rightarrow> bool" where
  "scaler_validates art \<longleftrightarrow> (\<forall>v. length v \<noteq> n_features_in art \<longrightarrow> scaler_transform art v = None)"

text \<open>
  Test data: a window of five frames without hands, a window of five frames with one
  detected hand each, an artifact fitted on 146 features, and an artifact fitted on the
  extractor's dimensionality whose classifier raises.
\<close>

definition empty_window :: "frame list" where
  "empty_window = replicate 5 (FrameD (Some []))"

definition one_hand :: hand where
  "one_hand = Hand (Some (replicate 21 (Landmark (Some (JNum (1 / 2))) (Some (JNum (1 / 4))) (Some (JNum 0)))))"

definition one_hand_window :: "frame list" where
  "one_hand_window = replicate 5 (FrameD (Some [one_hand]))"

definition artifact_146 :: artifact where
  "artifact_146 =
     \<lparr>n_features_in = 146,
      scaler_transform = (\<lambda>v. if length v = 146 then Some v else None),
      predict_proba = (\<lambda>v. Some [1]),
      inverse_transform = (\<lambda>i. Some ''Hello''),
      class_names = [''Hello'']\<rparr>"

definition artifact_raising :: artifact where
  "artifact_raising =
     \<lparr>n_features_in = 76,
      scaler_transform = (\<lambda>v. if length v = 76 then Some v else None),
      predict_proba = (\<lambda>v. None),
      inverse_transform = (\<lambda>i. Some ''Hello''),
      class_names = [''Hello'']\<rparr>"

text \<open>
  The shape (n, 2, 21, 3) of the landmarks array, and the property that the wrist
  (landmark 0) of every hand of every frame is the origin.
\<close>

definition hand_shape :: "point list \<Rightarrow> bool" where
  "hand_shape h \<longleftrightarrow> length h = 21 \<and> (\<forall>p\<in>set h. length p = 3)"

definition shape_ok :: "larray \<Rightarrow> bool" where
  "shape_ok arr \<longleftrightarrow> (\<forall>fr\<in>set arr. length fr = 2 \<and> (\<forall>h\<in>set fr. hand_shape h))"

definition wrists_at_origin :: "larray \<Rightarrow> bool" where
  "wrists_at_origin arr \<longleftrightarrow> (\<forall>fr\<in>set arr. \<forall>h\<in>set fr. h ! 0 = [0, 0, 0])"

section \<open>Properties of the streaming session\<close>


lemma attr_or_empty_simps [simp]:
  "attr_or_empty None = Map.empty" "attr_or_empty (Some m) = m"
  by (simp_all add: attr_or_empty_def)

lemma fsl_inv_init: "fsl_inv fsl_init"
  by (simp add: fsl_inv_def fsl_init_def buffer_of_def counter_of_def streak_of_def attr_or_empty_def)

lemma streak_bounds:
  assumes "fsl_inv st"
  shows "0 \<le> (case streak_of st u of None \<Rightarrow> 0 | Some k \<Rightarrow> k)
       \<and> (case streak_of st u of None \<Rightarrow> 0 | Some k \<Rightarrow> k) < 5"
proof (cases "streak_of st u")
  case None
  then show ?thesis by simp
next
  case (Some k)
  with assms have "0 \<le> k \<and> k < 5" unfolding fsl_inv_def by blast
  with Some show ?thesis by simp
qed

lemma length_append_evict:
  "int (length b) = min c 30 \<Longrightarrow> 0 \<le> c \<Longrightarrow> int (length (append_evict b f)) = min (c + 1) 30"
  by (cases "c \<le> 29") (auto simp: append_evict_def Let_def min_def split: if_splits)

lemma hands_branch_effect:
  assumes inv: "fsl_inv st"
  shows "\<exists>b c. b = append_evict (case buffer_of st u of None \<Rightarrow> [] | Some b0 \<Rightarrow> b0) f \<and>
           c = (case buffer_of st u of None \<Rightarrow> 0 | Some _ \<Rightarrow> the (counter_of st u)) + 1 \<and>
           buffer_of (fst (hands_branch classify u f st)) u = Some b \<and>
           counter_of (fst (hands_branch classify u f st)) u = Some c \<and>
           streak_of (fst (hands_branch classify u f st)) u = Some 0 \<and>
           (\<forall>v. v \<noteq> u \<longrightarrow> buffer_of (fst (hands_branch classify u f st)) v = buffer_of st v
                \<and> counter_of (fst (hands_branch classify u f st)) v = counter_of st v
                \<and> streak_of (fst (hands_branch classify u f st)) v = streak_of st v) \<and>
           snd (hands_branch classify u f st) =
             (if length b < 15 then (if length b mod 3 = 0 then [Collecting (length b)] else [])
              else if c mod 3 \<noteq> 0 then []
              else (case classify b of Some p \<Rightarrow> [PredictionResult b p (length b)]
                    | None \<Rightarrow> [PredictionError b]))"
proof (cases "buffer_of st u")
  case None
  then show ?thesis
    by (auto simp: hands_branch_def Let_def buffer_of_def counter_of_def streak_of_def
        split: option.splits)
next
  case (Some b0)
  with inv obtain c0 where c0: "counter_of st u = Some c0"
    unfolding fsl_inv_def by blast
  with Some show ?thesis
    by (auto simp: hands_branch_def Let_def buffer_of_def counter_of_def streak_of_def
        split: option.splits)
qed

lemma no_hands_branch_effect:
  assumes inv: "fsl_inv st"
  shows "\<exists>s. s = (case streak_of st u of None \<Rightarrow> 0 | Some k \<Rightarrow> k) + 1 \<and>
           streak_of (fst (no_hands_branch u st :: 'f fsl_attrs \<times> ('f, 'p) emit list)) u = Some (if 5 \<le> s then 0 else s) \<and>
           buffer_of (fst (no_hands_branch u st :: 'f fsl_attrs \<times> ('f, 'p) emit list)) u =
             (if 5 \<le> s then map_option (\<lambda>_. []) (buffer_of st u) else buffer_of st u) \<and>
           counter_of (fst (no_hands_branch u st :: 'f fsl_attrs \<times> ('f, 'p) emit list)) u =
             (if 5 \<le> s \<and> buffer_of st u \<noteq> None then Some 0 else counter_of st u) \<and>
           (\<forall>v. v \<noteq> u \<longrightarrow> buffer_of (fst (no_hands_branch u st :: 'f fsl_attrs \<times> ('f, 'p) emit list)) v = buffer_of st v
                \<and> counter_of (fst (no_hands_branch u st :: 'f fsl_attrs \<times> ('f, 'p) emit list)) v = counter_of st v
                \<and> streak_of (fst (no_hands_branch u st :: 'f fsl_attrs \<times> ('f, 'p) emit list)) v = streak_of st v) \<and>
           snd (no_hands_branch u st :: 'f fsl_attrs \<times> ('f, 'p) emit list) =
             (if \<not> 5 \<le> s \<and> s mod 10 = 1 then [NoHandsDetected] else [])"
proof (cases "buffer_of st u")
  case None
  then show ?thesis
    by (auto simp: no_hands_branch_def Let_def buffer_of_def counter_of_def streak_of_def
        split: option.splits)
next
  case (Some b0)
  with inv obtain c0 where c0: "counter_of st u = Some c0"
    unfolding fsl_inv_def by blast
  with Some show ?thesis
    by (auto simp: no_hands_branch_def Let_def buffer_of_def counter_of_def streak_of_def
        split: option.splits)
qed

lemma fsl_inv_hands:
  assumes inv: "fsl_inv st"
  shows "fsl_inv (fst (hands_branch classify u f st))"
proof -
  let ?st' = "fst (hands_branch classify u f st)"
  from hands_branch_effect[OF inv, of u f classify]
  have bu: "buffer_of ?st' u = Some (append_evict (case buffer_of st u of None \<Rightarrow> [] | Some b0 \<Rightarrow> b0) f)"
    and cu: "counter_of ?st' u = Some ((case buffer_of st u of None \<Rightarrow> 0 | Some _ \<Rightarrow> the (counter_of st u)) + 1)"
    and su: "streak_of ?st' u = Some 0"
    and oth: "\<And>v. v \<noteq> u \<Longrightarrow> buffer_of ?st' v = buffer_of st v \<and> counter_of ?st' v = counter_of st v
                \<and> streak_of ?st' v = streak_of st v"
    by blast+
  have old: "case buffer_of st u of None \<Rightarrow> True
             | Some b0 \<Rightarrow> 0 \<le> the (counter_of st u) \<and> int (length b0) = min (the (counter_of st u)) 30"
    using inv unfolding fsl_inv_def by (fastforce split: option.splits)
  have new: "\<exists>c. counter_of ?st' u = Some c \<and> 0 \<le> c \<and>
               int (length (append_evict (case buffer_of st u of None \<Rightarrow> [] | Some b0 \<Rightarrow> b0) f)) = min c 30"
  proof (cases "buffer_of st u")
    case None
    then show ?thesis using cu by (simp add: append_evict_def)
  next
    case (Some b0)
    then show ?thesis using cu old length_append_evict[of b0 "the (counter_of st u)" f] by simp
  qed
  show ?thesis
    unfolding fsl_inv_def
  proof (intro conjI allI impI)
    fix v b assume h: "buffer_of ?st' v = Some b"
    show "\<exists>c. counter_of ?st' v = Some c \<and> 0 \<le> c \<and> int (length b) = min c 30"
    proof (cases "v = u")
      case True
      then show ?thesis using h bu new by simp
    next
      case False
      then show ?thesis using h oth[of v] inv unfolding fsl_inv_def by simp
    qed
  next
    fix v s assume h: "streak_of ?st' v = Some s"
    show "0 \<le> s" using h su oth[of v] inv unfolding fsl_inv_def by (cases "v = u") auto
  next
    fix v s assume h: "streak_of ?st' v = Some s"
    show "s < 5" using h su oth[of v] inv unfolding fsl_inv_def by (cases "v = u") auto
  qed
qed

lemma fsl_inv_no_hands:
  assumes inv: "fsl_inv st"
  shows "fsl_inv (fst (no_hands_branch u st :: 'f fsl_attrs \<times> ('f, 'p) emit list))"
proof -
  let ?st' = "fst (no_hands_branch u st :: 'f fsl_attrs \<times> ('f, 'p) emit list)"
  define s where "s = (case streak_of st u of None \<Rightarrow> 0 | Some k \<Rightarrow> k) + 1"
  from no_hands_branch_effect[OF inv, of u]
  have su: "streak_of ?st' u = Some (if 5 \<le> s then 0 else s)"
    and bu: "buffer_of ?st' u = (if 5 \<le> s then map_option (\<lambda>_. []) (buffer_of st u) else buffer_of st u)"
    and cu: "counter_of ?st' u = (if 5 \<le> s \<and> buffer_of st u \<noteq> None then Some 0 else counter_of st u)"
    and oth: "\<And>v. v \<noteq> u \<Longrightarrow> buffer_of ?st' v = buffer_of st v \<and> counter_of ?st' v = counter_of st v
                \<and> streak_of ?st' v = streak_of st v"
    unfolding s_def by blast+
  have s0: "1 \<le> s" using streak_bounds[OF inv, of u] unfolding s_def by simp
  show ?thesis
    unfolding fsl_inv_def
  proof (intro conjI allI impI)
    fix v b assume h: "buffer_of ?st' v = Some b"
    show "\<exists>c. counter_of ?st' v = Some c \<and> 0 \<le> c \<and> int (length b) = min c 30"
    proof (cases "v = u")
      case True
      then show ?thesis using h bu cu inv unfolding fsl_inv_def by (auto split: if_splits)
    next
      case False
      then show ?thesis using h oth[of v] inv unfolding fsl_inv_def by simp
    qed
  next
    fix v k assume h: "streak_of ?st' v = Some k"
    show "0 \<le> k" using h su s0 oth[of v] inv unfolding fsl_inv_def by (cases "v = u") (auto split: if_splits)
  next
    fix v k assume h: "streak_of ?st' v = Some k"
    show "k < 5" using h su s0 oth[of v] inv unfolding fsl_inv_def by (cases "v = u") (auto split: if_splits)
  qed
qed

lemma fsl_inv_disconnect: "fsl_inv st \<Longrightarrow> fsl_inv (handle_disconnect_fsl user st)"
  unfolding fsl_inv_def handle_disconnect_fsl_def map_del_def buffer_of_def counter_of_def streak_of_def
  by (auto split: option.splits if_splits)

lemma fsl_inv_leave: "fsl_inv st \<Longrightarrow> fsl_inv (handle_leave_fsl_learning user st)"
  unfolding fsl_inv_def handle_leave_fsl_learning_def map_del_def buffer_of_def counter_of_def streak_of_def
  by (auto split: option.splits if_splits)

lemma fsl_inv_step: "fsl_inv st \<Longrightarrow> fsl_inv (fst (fsl_step predictor ev st))"
  unfolding fsl_step_def handle_process_fsl_frame_def
  by (auto simp: fsl_inv_hands fsl_inv_no_hands fsl_inv_disconnect fsl_inv_leave
      split: fsl_event.splits option.splits frame_input.splits)

lemma fsl_inv_run: "fsl_inv st \<Longrightarrow> fsl_inv (fst (fsl_run predictor evs st))"
proof (induction evs arbitrary: st)
  case Nil
  then show ?case by simp
next
  case (Cons ev evs)
  from Cons.prems have "fsl_inv (fst (fsl_step predictor ev st))" by (rule fsl_inv_step)
  from Cons.IH[OF this] show ?case by (simp add: split_beta Let_def)
qed

lemma fsl_step_no_hands:
  "u \<noteq> 0 \<Longrightarrow> fsl_step (Some classify) (Some u, Frame NoHands) st = no_hands_branch u st"
  by (simp add: fsl_step_def handle_process_fsl_frame_def)

lemma no_hands_frames_effect:
  assumes "fsl_inv st" and "u \<noteq> 0" and "buffer_of st u = Some b"
  shows "buffer_of (fst (fsl_run (Some classify) (replicate n (Some u, Frame NoHands)) st)) u
           = Some (if 5 \<le> (case streak_of st u of None \<Rightarrow> 0 | Some k \<Rightarrow> k) + int n then [] else b)
       \<and> counter_of (fst (fsl_run (Some classify) (replicate n (Some u, Frame NoHands)) st)) u
           = (if 5 \<le> (case streak_of st u of None \<Rightarrow> 0 | Some k \<Rightarrow> k) + int n then Some 0 else counter_of st u)"
  using assms
proof (induction n arbitrary: st b)
  case 0
  then show ?case using streak_bounds[of st u] by simp
next
  case (Suc n)
  let ?r = "no_hands_branch u st :: 'a fsl_attrs \<times> ('a, 'b) emit list"
  let ?st1 = "fst ?r"
  define s where "s = (case streak_of st u of None \<Rightarrow> 0 | Some k \<Rightarrow> k) + 1"
  have sb: "1 \<le> s" "s \<le> 5"
    using streak_bounds[OF Suc.prems(1), of u] unfolding s_def by simp_all
  from no_hands_branch_effect[OF Suc.prems(1), of u]
  have su: "streak_of ?st1 u = Some (if 5 \<le> s then 0 else s)"
    and bu: "buffer_of ?st1 u = (if 5 \<le> s then map_option (\<lambda>_. []) (buffer_of st u) else buffer_of st u)"
    and cu: "counter_of ?st1 u = (if 5 \<le> s \<and> buffer_of st u \<noteq> None then Some 0 else counter_of st u)"
    unfolding s_def by blast+
  have inv1: "fsl_inv ?st1" using Suc.prems(1) by (rule fsl_inv_no_hands)
  have b1: "buffer_of ?st1 u = Some (if 5 \<le> s then [] else b)"
    using bu Suc.prems(3) by simp
  note ih = Suc.IH[OF inv1 Suc.prems(2) b1]
  have run: "fst (fsl_run (Some classify) (replicate (Suc n) (Some u, Frame NoHands)) st)
           = fst (fsl_run (Some classify) (replicate n (Some u, Frame NoHands)) ?st1)"
    using Suc.prems(2) by (simp add: fsl_step_no_hands split_beta Let_def)
  show ?case
    unfolding run using ih su cu sb Suc.prems(3) unfolding s_def
    by (auto split: if_splits option.splits)
qed

text \<open>
  Claim C6. In every session reached by a run of events, a frame with landmarks from an
  authenticated user leaves a buffer \<open>buf\<close> and a frame counter \<open>c\<close> such that:
  while \<open>buf\<close> holds fewer than 15 frames the counter equals the buffer length, the
  classifier is not called, and the progress notice is emitted exactly when the counter is
  divisible by 3; once \<open>buf\<close> holds at least 15 frames the classifier is called exactly
  when the counter is divisible by 3, and its argument is the whole buffer \<open>buf\<close>.
\<close>

theorem classification_cadence:
  assumes "u \<noteq> 0"
    and "res = handle_process_fsl_frame (Some classify) (Some u) (Hands f)
                 (fst (fsl_run (Some classify) evs fsl_init))"
  shows "\<exists>buf c. buffer_of (fst res) u = Some buf \<and> counter_of (fst res) u = Some c \<and>
           (length buf < 15 \<longrightarrow>
              int (length buf) = c \<and>
              snd res = (if c mod 3 = 0 then [Collecting (length buf)] else [])) \<and>
           (15 \<le> length buf \<longrightarrow>
              snd res = (if c mod 3 = 0
                         then [case classify buf of Some p \<Rightarrow> PredictionResult buf p (length buf)
                               | None \<Rightarrow> PredictionError buf]
                         else []))"
proof -
  let ?st = "fst (fsl_run (Some classify) evs fsl_init)"
  have inv: "fsl_inv ?st" by (rule fsl_inv_run[OF fsl_inv_init])
  have res: "res = hands_branch classify u f ?st"
    using assms by (simp add: handle_process_fsl_frame_def)
  have inv': "fsl_inv (fst res)" unfolding res using inv by (rule fsl_inv_hands)
  from hands_branch_effect[OF inv, of u f classify] obtain buf c where
    b: "buffer_of (fst res) u = Some buf" and c: "counter_of (fst res) u = Some c"
    and out: "snd res = (if length buf < 15 then (if length buf mod 3 = 0 then [Collecting (length buf)] else [])
              else if c mod 3 \<noteq> 0 then []
              else (case classify buf of Some p \<Rightarrow> [PredictionResult buf p (length buf)]
                    | None \<Rightarrow> [PredictionError buf]))"
    unfolding res by blast
  from inv' b c have len: "0 \<le> c \<and> int (length buf) = min c 30"
    unfolding fsl_inv_def by fastforce
  have small: "length buf < 15 \<Longrightarrow> int (length buf) = c"
    using len by (simp add: min_def split: if_splits)
  have m: "length buf < 15 \<Longrightarrow> (length buf mod 3 = 0) = (c mod 3 = 0)"
    using small by (metis of_nat_0 of_nat_eq_iff of_nat_mod of_nat_numeral)
  show ?thesis
    using b c out small m by (auto split: option.splits)
qed

theorem classification_cadence_witness:
  "(1::nat) \<noteq> 0 \<and>
   snd (handle_process_fsl_frame (Some (\<lambda>b. Some (length b))) (Some 1) (Hands (0::nat))
          (fst (fsl_run (Some (\<lambda>b. Some (length b))) (replicate 14 (Some 1, Frame (Hands 0))) fsl_init)))
     = [PredictionResult (replicate 15 0) 15 15]"
proof -
  let ?p = "\<lambda>b::nat list. Some (length b)"
  let ?res = "handle_process_fsl_frame (Some ?p) (Some 1) (Hands (0::nat))
          (fst (fsl_run (Some ?p) (replicate 14 (Some 1, Frame (Hands 0))) fsl_init))"
  have h: "(1::nat) \<noteq> 0" by simp
  from classification_cadence[OF h refl, of ?p 0 "replicate 14 (Some 1, Frame (Hands 0))"]
  obtain buf c where b: "buffer_of (fst ?res) 1 = Some buf" and c: "counter_of (fst ?res) 1 = Some c"
    and out: "15 \<le> length buf \<longrightarrow>
       snd ?res = (if c mod 3 = 0
                   then [case ?p buf of Some p \<Rightarrow> PredictionResult buf p (length buf)
                         | None \<Rightarrow> PredictionError buf]
                   else [])"
    by blast
  have "buffer_of (fst ?res) 1 = Some (replicate 15 0)" by code_simp
  with b have buf: "buf = replicate 15 0" by simp
  have "counter_of (fst ?res) 1 = Some 15" by code_simp
  with c have cv: "c = 15" by simp
  from out buf cv have "snd ?res = [PredictionResult (replicate 15 0) 15 15]" by simp
  with h show ?thesis by simp
qed

text \<open>
  Claim C7. In every session reached by a run of events in which the user has a buffer,
  five consecutive no-hand frames leave the user's buffer empty and the frame counter 0.
\<close>

theorem no_hands_reset:
  assumes "u \<noteq> 0"
    and "buffer_of (fst (fsl_run (Some classify) evs fsl_init)) u = Some b"
  shows "buffer_of (fst (fsl_run (Some classify) (replicate 5 (Some u, Frame NoHands))
                      (fst (fsl_run (Some classify) evs fsl_init)))) u = Some []
       \<and> counter_of (fst (fsl_run (Some classify) (replicate 5 (Some u, Frame NoHands))
                      (fst (fsl_run (Some classify) evs fsl_init)))) u = Some 0"
proof -
  let ?st = "fst (fsl_run (Some classify) evs fsl_init)"
  have inv: "fsl_inv ?st" by (rule fsl_inv_run[OF fsl_inv_init])
  then have "0 \<le> (case streak_of ?st u of None \<Rightarrow> 0 | Some k \<Rightarrow> k)"
    using streak_bounds by blast
  then show ?thesis
    using no_hands_frames_effect[OF inv assms(1) assms(2), of classify 5] by simp
qed

theorem no_hands_reset_witness:
  "(1::nat) \<noteq> 0 \<and>
   buffer_of (fst (fsl_run (Some (\<lambda>b. Some (length b))) [(Some 1, Frame (Hands (7::nat)))] fsl_init)) 1 = Some [7] \<and>
   buffer_of (fst (fsl_run (Some (\<lambda>b. Some (length b))) (replicate 5 (Some 1, Frame NoHands))
      (fst (fsl_run (Some (\<lambda>b. Some (length b))) [(Some 1, Frame (Hands (7::nat)))] fsl_init)))) 1 = Some []"
proof -
  have h: "(1::nat) \<noteq> 0" by simp
  have b: "buffer_of (fst (fsl_run (Some (\<lambda>b. Some (length b))) [(Some 1, Frame (Hands (7::nat)))] fsl_init)) 1 = Some [7]"
    by (simp add: fsl_step_def handle_process_fsl_frame_def hands_branch_def
          append_evict_def fsl_init_def attr_or_empty_def buffer_of_def Let_def)
  show ?thesis using no_hands_reset[OF h b] b by simp
qed

text \<open>
  Claim C8 (at most one "no hands" notice per 10 consecutive no-hand frames), evaluated on
  ten consecutive no-hand frames in a fresh session: the streak is reset to 0 at the fifth
  frame, so the test \<open>streak % 10 == 1\<close> holds again at the sixth frame and two notices
  are emitted.
\<close>

theorem no_hands_notice_twice_in_ten:
  "snd (fsl_run (Some (\<lambda>_. None :: nat option)) (replicate 10 (Some 1, Frame (NoHands :: nat frame_input))) fsl_init)
     = [NoHandsDetected, NoHandsDetected]"
  by (simp add: numeral_eq_Suc fsl_step_def handle_process_fsl_frame_def no_hands_branch_def fsl_init_def Let_def)

section \<open>Properties of the room coordinator\<close>

lemma save_gate:
  "snd (save_game_results (Some r) s) = Saved rows \<Longrightarrow>
     \<not> is_saved_flag s r \<and> has_scores s r \<and> n_participants s r \<le> length (scores_of s r)"
  by (auto simp: save_game_results_def is_saved_flag_def has_scores_def n_participants_def
        scores_of_def Let_def split: option.splits if_splits)

lemma record_final_score_views:
  assumes "rooms st code \<noteq> None" and "s_room se = Some code"
  shows "\<not> snd (record_final_score se score st)"
    and "scores_of (fst (record_final_score se score st)) code =
           (case score of None \<Rightarrow> scores_of st code
            | Some v \<Rightarrow> AList.update (s_user_id se) v (scores_of st code))"
    and "is_saved_flag (fst (record_final_score se score st)) code = is_saved_flag st code"
    and "n_participants (fst (record_final_score se score st)) code = n_participants st code"
    and "has_scores (fst (record_final_score se score st)) code = (score \<noteq> None \<or> has_scores st code)"
    and "db (fst (record_final_score se score st)) = db st"
    and "rooms (fst (record_final_score se score st)) code \<noteq> None"
    and "game_states (fst (record_final_score se score st)) code \<noteq> None"
  using assms
  by (auto simp: record_final_score_def scores_of_def is_saved_flag_def n_participants_def
        has_scores_def Let_def split: option.splits)

lemma save_game_results_not_saved:
  assumes "\<not> is_saved (Reached (snd (save_game_results (Some code) s)))"
  shows "fst (save_game_results (Some code) s) = s"
  using assms
  by (auto simp: save_game_results_def Let_def split: option.splits if_splits list.splits)

lemma save_game_results_saved_iff:
  assumes "rooms s code \<noteq> None" and "reachable (db s)"
    and "latest_room_row (rooms_tbl (db s)) code \<noteq> None"
  shows "is_saved (Reached (snd (save_game_results (Some code) s))) \<longleftrightarrow>
           has_scores s code \<and> \<not> is_saved_flag s code \<and> n_participants s code \<le> length (scores_of s code)"
  using assms
  by (auto simp: save_game_results_def is_saved_flag_def has_scores_def n_participants_def
        scores_of_def Let_def split: option.splits if_splits)

lemma save_game_results_saved_views:
  assumes "is_saved (Reached (snd (save_game_results (Some code) s)))"
  shows "is_saved_flag (fst (save_game_results (Some code) s)) code"
    and "scores_of (fst (save_game_results (Some code) s)) code = []"
    and "n_participants (fst (save_game_results (Some code) s)) code = n_participants s code"
    and "rooms (fst (save_game_results (Some code) s)) code \<noteq> None"
    and "game_states (fst (save_game_results (Some code) s)) = game_states s"
    and "reachable (db (fst (save_game_results (Some code) s))) = reachable (db s)"
    and "rooms_tbl (db (fst (save_game_results (Some code) s))) = rooms_tbl (db s)"
  using assms
  by (auto simp: save_game_results_def is_saved_flag_def n_participants_def
        scores_of_def Let_def split: option.splits if_splits)

lemma handle_end_game_unfold:
  assumes "rooms st code \<noteq> None" and "game_states st code \<noteq> None" and "s_room se = Some code"
  shows "handle_end_game se score st =
           (fst (save_game_results (Some code) (fst (record_final_score se score st))),
            Reached (snd (save_game_results (Some code) (fst (record_final_score se score st)))))"
  using assms record_final_score_views(1)[OF assms(1) assms(3), of score]
  by (simp add: handle_end_game_def room_in_def split_beta)

lemma end_game_effect:
  fixes st :: coord and code :: string and se :: sess and score :: "int option"
  assumes ok: "room_ok st code" and r: "s_room se = Some code"
  defines "fs' \<equiv> (case score of None \<Rightarrow> scores_of st code
                        | Some v \<Rightarrow> AList.update (s_user_id se) v (scores_of st code))"
  defines "fire \<equiv> (score \<noteq> None \<or> has_scores st code) \<and> \<not> is_saved_flag st code
                      \<and> n_participants st code \<le> length fs'"
  shows "room_ok (fst (handle_end_game se score st)) code"
    and "n_participants (fst (handle_end_game se score st)) code = n_participants st code"
    and "is_saved (snd (handle_end_game se score st)) = fire"
    and "is_saved_flag (fst (handle_end_game se score st)) code = (is_saved_flag st code \<or> fire)"
    and "\<not> fire \<Longrightarrow> scores_of (fst (handle_end_game se score st)) code = fs'"
    and "\<not> fire \<Longrightarrow> has_scores (fst (handle_end_game se score st)) code = (score \<noteq> None \<or> has_scores st code)"
proof -
  let ?s1 = "fst (record_final_score se score st)"
  let ?sv = "save_game_results (Some code) ?s1"
  have rm: "rooms st code \<noteq> None" and gs: "game_states st code \<noteq> None"
    and re: "reachable (db st)" and row: "latest_room_row (rooms_tbl (db st)) code \<noteq> None"
    and di: "distinct (map fst (scores_of st code))"
    using ok by (simp_all add: room_ok_def)
  note v = record_final_score_views[OF rm r, of score]
  have h: "handle_end_game se score st = (fst ?sv, Reached (snd ?sv))"
    by (rule handle_end_game_unfold[OF rm gs r])
  have di1: "distinct (map fst (scores_of ?s1 code))"
    using di v(2) by (simp add: distinct_update split: option.splits)
  have fire: "is_saved (Reached (snd ?sv)) = fire"
    using save_game_results_saved_iff[of ?s1 code] v re row
    unfolding fire_def fs'_def by auto
  show "is_saved (snd (handle_end_game se score st)) = fire"
    using fire h by simp
  show "n_participants (fst (handle_end_game se score st)) code = n_participants st code"
  proof (cases fire)
    case True
    then show ?thesis using save_game_results_saved_views(3)[of code ?s1] fire h v(4) by simp
  next
    case False
    then show ?thesis using save_game_results_not_saved[of code ?s1] fire h v(4) by simp
  qed
  show "is_saved_flag (fst (handle_end_game se score st)) code = (is_saved_flag st code \<or> fire)"
  proof (cases fire)
    case True
    then show ?thesis using save_game_results_saved_views(1)[of code ?s1] fire h by simp
  next
    case False
    then show ?thesis using save_game_results_not_saved[of code ?s1] fire h v(3) by simp
  qed
  show "room_ok (fst (handle_end_game se score st)) code"
  proof (cases fire)
    case True
    then have sv: "is_saved (Reached (snd ?sv))" using fire by simp
    show ?thesis
      using save_game_results_saved_views[OF sv] v re row h
      by (simp add: room_ok_def)
  next
    case False
    then have "fst ?sv = ?s1" using save_game_results_not_saved[of code ?s1] fire by simp
    then show ?thesis using v re row di1 h by (simp add: room_ok_def)
  qed
  show "scores_of (fst (handle_end_game se score st)) code = fs'" if "\<not> fire"
    using that save_game_results_not_saved[of code ?s1] fire h v(2) unfolding fs'_def by simp
  show "has_scores (fst (handle_end_game se score st)) code = (score \<noteq> None \<or> has_scores st code)"
    if "\<not> fire"
    using that save_game_results_not_saved[of code ?s1] fire h v(5) by simp
qed

lemma persist_count_Cons:
  "persist_count (out # outs) = (if is_saved out then 1 else 0) + persist_count outs"
  by (simp add: persist_count_def)

lemma end_game_run_Cons:
  "snd (end_game_run (e # evs) st) =
     snd (handle_end_game (fst e) (snd e) st) # snd (end_game_run evs (fst (handle_end_game (fst e) (snd e) st)))"
  by (simp add: split_beta Let_def)

lemma scorers_Cons:
  "scorers (e # evs) = (if snd e \<noteq> None then insert (s_user_id (fst e)) (scorers evs) else scorers evs)"
  by (auto simp: scorers_def)

lemma scorers_Nil: "scorers [] = {}"
  by (simp add: scorers_def)

lemma finite_scorers: "finite (scorers evs)"
  by (simp add: scorers_def)

lemma no_persist_after_saved:
  assumes "room_ok st code" and "is_saved_flag st code" and "\<forall>e\<in>set evs. s_room (fst e) = Some code"
  shows "persist_count (snd (end_game_run evs st)) = 0"
  using assms
proof (induction evs arbitrary: st)
  case Nil
  then show ?case by (simp add: persist_count_def)
next
  case (Cons e evs)
  let ?st' = "fst (handle_end_game (fst e) (snd e) st)"
  have r: "s_room (fst e) = Some code" using Cons.prems(3) by simp
  note eff = end_game_effect[OF Cons.prems(1) r, of "snd e"]
  have ns: "\<not> is_saved (snd (handle_end_game (fst e) (snd e) st))"
    using eff(3) Cons.prems(2) by simp
  have fl: "is_saved_flag ?st' code" using eff(4) Cons.prems(2) by simp
  have "persist_count (snd (end_game_run evs ?st')) = 0"
    using Cons.IH[OF eff(1) fl] Cons.prems(3) by simp
  then show ?case using ns by (simp only: end_game_run_Cons persist_count_Cons) simp
qed

lemma persist_at_most_once:
  assumes "room_ok st code" and "\<forall>e\<in>set evs. s_room (fst e) = Some code"
  shows "persist_count (snd (end_game_run evs st)) \<le> 1"
  using assms
proof (induction evs arbitrary: st)
  case Nil
  then show ?case by (simp add: persist_count_def)
next
  case (Cons e evs)
  let ?st' = "fst (handle_end_game (fst e) (snd e) st)"
  have r: "s_room (fst e) = Some code" using Cons.prems(2) by simp
  have rest: "\<forall>e\<in>set evs. s_room (fst e) = Some code" using Cons.prems(2) by simp
  note eff = end_game_effect[OF Cons.prems(1) r, of "snd e"]
  show ?case
  proof (cases "is_saved (snd (handle_end_game (fst e) (snd e) st))")
    case True
    then have "is_saved_flag ?st' code" using eff(3) eff(4) by simp
    then have "persist_count (snd (end_game_run evs ?st')) = 0"
      using no_persist_after_saved[OF eff(1) _ rest] by simp
    then show ?thesis using True by (simp only: end_game_run_Cons persist_count_Cons) simp
  next
    case False
    then show ?thesis using Cons.IH[OF eff(1) rest]
      by (simp only: end_game_run_Cons persist_count_Cons) simp
  qed
qed

lemma persist_exactly_once_gen:
  assumes "room_ok st code" and "\<not> is_saved_flag st code"
    and "\<forall>e\<in>set evs. s_room (fst e) = Some code"
    and "n_participants st code \<le> card (fst ` set (scores_of st code) \<union> scorers evs)"
    and "evs \<noteq> []" and "\<not> has_scores st code \<longrightarrow> scorers evs \<noteq> {}"
  shows "persist_count (snd (end_game_run evs st)) = 1"
  using assms
proof (induction evs arbitrary: st)
  case Nil
  then show ?case by simp
next
  case (Cons e evs)
  let ?st' = "fst (handle_end_game (fst e) (snd e) st)"
  let ?fs' = "case snd e of None \<Rightarrow> scores_of st code
              | Some v \<Rightarrow> AList.update (s_user_id (fst e)) v (scores_of st code)"
  have r: "s_room (fst e) = Some code" using Cons.prems(3) by simp
  have rest: "\<forall>e\<in>set evs. s_room (fst e) = Some code" using Cons.prems(3) by simp
  note eff = end_game_effect[OF Cons.prems(1) r, of "snd e"]
  show ?case
  proof (cases "is_saved (snd (handle_end_game (fst e) (snd e) st))")
    case True
    then have "is_saved_flag ?st' code" using eff(3) eff(4) by simp
    then have "persist_count (snd (end_game_run evs ?st')) = 0"
      using no_persist_after_saved[OF eff(1) _ rest] by simp
    then show ?thesis using True by (simp only: end_game_run_Cons persist_count_Cons) simp
  next
    case False
    then have nf: "\<not> ((snd e \<noteq> None \<or> has_scores st code) \<and> \<not> is_saved_flag st code
                      \<and> n_participants st code \<le> length ?fs')"
      using eff(3) by simp
    have fl: "\<not> is_saved_flag ?st' code" using eff(4) nf Cons.prems(2) by simp
    have sc: "scores_of ?st' code = ?fs'" using eff(5) nf by simp
    have hs: "has_scores ?st' code = (snd e \<noteq> None \<or> has_scores st code)" using eff(6) nf by simp
    have np: "n_participants ?st' code = n_participants st code" using eff(2) by simp
    have keys: "fst ` set ?fs' \<union> scorers evs = fst ` set (scores_of st code) \<union> scorers (e # evs)"
      by (cases "snd e") (auto simp: scorers_Cons dom_update)
    have di: "distinct (map fst ?fs')"
      using eff(1) sc by (simp add: room_ok_def)
    have len: "length ?fs' = card (fst ` set ?fs')"
      using distinct_card[OF di] by simp
    have c4: "n_participants ?st' code \<le> card (fst ` set (scores_of ?st' code) \<union> scorers evs)"
      using Cons.prems(4) keys sc np by simp
    have ne: "scorers evs \<noteq> {}"
    proof (cases "snd e \<noteq> None \<or> has_scores st code")
      case True
      then have "length ?fs' < n_participants st code" using nf Cons.prems(2) by simp
      then have "card (fst ` set ?fs') < card (fst ` set ?fs' \<union> scorers evs)"
        using Cons.prems(4) keys len by simp
      then show ?thesis by auto
    next
      case False
      then show ?thesis using Cons.prems(6) by (simp add: scorers_Cons)
    qed
    then have ne': "evs \<noteq> []" by (auto simp: scorers_Nil)
    have "persist_count (snd (end_game_run evs ?st')) = 1"
      using Cons.IH[OF eff(1) fl rest c4 ne'] ne by simp
    then show ?thesis using False by (simp only: end_game_run_Cons persist_count_Cons) simp
  qed
qed

lemma end_game_gate:
  assumes "s_room se = Some code" and "is_saved (snd (handle_end_game se score s))"
  shows "\<not> is_saved_flag s code \<and>
         n_participants s code \<le> length (scores_of (fst (record_final_score se score s)) code)"
proof -
  have gs: "game_states s code \<noteq> None"
    using assms by (cases "game_states s code") (auto simp: handle_end_game_def room_in_def)
  have nr: "\<not> snd (record_final_score se score s)"
    using assms gs by (auto simp: handle_end_game_def room_in_def split_beta split: if_splits)
  let ?s1 = "fst (record_final_score se score s)"
  have "is_saved (Reached (snd (save_game_results (Some code) ?s1)))"
    using assms gs nr by (simp add: handle_end_game_def room_in_def split_beta)
  then obtain rows where "snd (save_game_results (Some code) ?s1) = Saved rows"
    by (cases "snd (save_game_results (Some code) ?s1)") auto
  from save_gate[OF this] have g: "\<not> is_saved_flag ?s1 code" "n_participants ?s1 code \<le> length (scores_of ?s1 code)"
    by simp_all
  have "is_saved_flag ?s1 code = is_saved_flag s code" "n_participants ?s1 code = n_participants s code"
    using assms(1)
    by (auto simp: record_final_score_def is_saved_flag_def n_participants_def Let_def split: option.splits)
  with g show ?thesis by simp
qed

text \<open>
  The \<open>game_sessions\<close> table changes only by the rows of a \<open>Saved\<close> outcome: each
  call of \<open>save_game_results\<close>, each \<open>end_game\<close> event and each run appends exactly
  those rows and leaves the \<open>rooms\<close> table alone.
\<close>

lemma save_game_results_table:
  "game_sessions_tbl (db (fst (save_game_results r s)))
     = game_sessions_tbl (db s) @ rows_of (Reached (snd (save_game_results r s)))"
  by (auto simp: save_game_results_def Let_def split: option.splits)

lemma save_game_results_other_tables:
  "rooms_tbl (db (fst (save_game_results r s))) = rooms_tbl (db s)"
  by (auto simp: save_game_results_def Let_def split: option.splits)

lemma save_game_results_rows:
  assumes "snd (save_game_results (Some r) s) = Saved rows"
  shows "\<exists>row rm. latest_room_row (rooms_tbl (db s)) r = Some row \<and> rooms s r = Some rm \<and>
           rows = score_rows (row_id row) (row_creator_id row)
                    (case creator_participated rm of None \<Rightarrow> True | Some b \<Rightarrow> b) (scores_of s r)"
  using assms
  by (auto simp: save_game_results_def scores_of_def score_rows_def Let_def
      split: option.splits if_splits)

lemma record_final_score_db: "db (fst (record_final_score se score s)) = db s"
  by (auto simp: record_final_score_def Let_def split: option.splits)

lemma handle_end_game_table:
  "game_sessions_tbl (db (fst (handle_end_game se score s)))
     = game_sessions_tbl (db s) @ rows_of (snd (handle_end_game se score s))"
proof (cases "room_in (s_room se) (game_states s)")
  case False
  then show ?thesis by (simp add: handle_end_game_def)
next
  case True
  show ?thesis
  proof (cases "snd (record_final_score se score s)")
    case raised: True
    then show ?thesis using True record_final_score_db[of se score s]
      by (simp add: handle_end_game_def split_beta)
  next
    case False
    then show ?thesis
      using True record_final_score_db[of se score s]
        save_game_results_table[of "s_room se" "fst (record_final_score se score s)"]
      by (simp add: handle_end_game_def split_beta)
  qed
qed

lemma end_game_run_table:
  "game_sessions_tbl (db (fst (end_game_run evs st)))
     = game_sessions_tbl (db st) @ appended_rows (snd (end_game_run evs st))"
proof (induction evs arbitrary: st)
  case Nil
  then show ?case by (simp add: appended_rows_def)
next
  case (Cons e evs)
  let ?st' = "fst (handle_end_game (fst e) (snd e) st)"
  have f: "fst (end_game_run (e # evs) st) = fst (end_game_run evs ?st')"
    by (simp add: split_beta Let_def)
  have s: "snd (end_game_run (e # evs) st)
             = snd (handle_end_game (fst e) (snd e) st) # snd (end_game_run evs ?st')"
    by (simp add: split_beta Let_def)
  show ?case
    unfolding f s using Cons.IH[of ?st'] handle_end_game_table[of "fst e" "snd e" st]
    by (simp add: appended_rows_def)
qed

lemma is_saved_rows: "is_saved out \<Longrightarrow> out = Reached (Saved (rows_of out))"
  by (cases out rule: is_saved.cases) auto

lemma not_saved_rows: "\<not> is_saved out \<Longrightarrow> rows_of out = []"
  by (cases out rule: is_saved.cases) auto

lemma appended_rows_filter: "appended_rows outs = appended_rows (filter is_saved outs)"
  by (induction outs) (auto simp: appended_rows_def not_saved_rows)

lemma persist_once_rows:
  assumes "persist_count outs = 1"
  shows "\<exists>rows. filter is_saved outs = [Reached (Saved rows)] \<and> appended_rows outs = rows"
proof -
  from assms obtain x where x: "filter is_saved outs = [x]"
    by (auto simp: persist_count_def length_Suc_conv)
  then have "x \<in> set (filter is_saved outs)" by simp
  then have "is_saved x" by simp
  from is_saved_rows[OF this] have "x = Reached (Saved (rows_of x))" .
  moreover have "appended_rows outs = rows_of x"
    using appended_rows_filter[of outs] x by (simp add: appended_rows_def)
  ultimately show ?thesis using x by metis
qed

lemma persist_none_rows:
  assumes "persist_count outs = 0"
  shows "appended_rows outs = []"
  using assms appended_rows_filter[of outs] by (simp add: persist_count_def appended_rows_def)

text \<open>
  Claim C1. In a room with a started game whose store answers and whose scores-persisted
  flag is not set, a run of \<open>end_game\<close> events persists at most once, and exactly once
  when the users that reported a score are at least as many as the participants, however
  often each one reported: the \<open>game_sessions\<close> table after the run is the table before
  the run followed by the rows of that one persistence, and it is unchanged when nothing
  was persisted. Persistence happens only when the flag is not set and the score
  dictionary, after the sender's score has been stored, has at least as many entries as
  the room has participants; the rows it inserts are those of the score dictionary, one
  per user. Storing a score is item assignment on the dictionary (\<open>AList.update\<close>): a
  user's earlier score is overwritten in place.
\<close>

theorem score_persistence_once:
  assumes "room_ok st code" and "\<not> is_saved_flag st code"
    and "\<forall>e\<in>set evs. s_room (fst e) = Some code"
  shows "persist_count (snd (end_game_run evs st)) \<le> 1
       \<and> game_sessions_tbl (db (fst (end_game_run evs st)))
           = game_sessions_tbl (db st) @ appended_rows (snd (end_game_run evs st))
       \<and> (persist_count (snd (end_game_run evs st)) = 0
            \<longrightarrow> game_sessions_tbl (db (fst (end_game_run evs st))) = game_sessions_tbl (db st))
       \<and> (n_participants st code \<le> card (scorers evs) \<and> scorers evs \<noteq> {}
            \<longrightarrow> persist_count (snd (end_game_run evs st)) = 1
              \<and> (\<exists>rows. filter is_saved (snd (end_game_run evs st)) = [Reached (Saved rows)]
                    \<and> game_sessions_tbl (db (fst (end_game_run evs st)))
                        = game_sessions_tbl (db st) @ rows))
       \<and> (\<forall>s se score. s_room se = Some code \<and> is_saved (snd (handle_end_game se score s))
            \<longrightarrow> \<not> is_saved_flag s code
              \<and> n_participants s code \<le> length (scores_of (fst (record_final_score se score s)) code))
       \<and> (\<forall>s rows. snd (save_game_results (Some code) s) = Saved rows
            \<longrightarrow> (\<exists>row rm. latest_room_row (rooms_tbl (db s)) code = Some row \<and> rooms s code = Some rm
                    \<and> rows = score_rows (row_id row) (row_creator_id row)
                               (case creator_participated rm of None \<Rightarrow> True | Some b \<Rightarrow> b)
                               (scores_of s code))
              \<and> game_sessions_tbl (db (fst (save_game_results (Some code) s)))
                  = game_sessions_tbl (db s) @ rows)
       \<and> (\<forall>s se v. s_room se = Some code \<and> rooms s code \<noteq> None
            \<longrightarrow> scores_of (fst (record_final_score se (Some v) s)) code
                  = AList.update (s_user_id se) v (scores_of s code))"
proof (intro conjI)
  let ?outs = "snd (end_game_run evs st)"
  let ?st' = "fst (end_game_run evs st)"
  show le: "persist_count ?outs \<le> 1"
    by (rule persist_at_most_once[OF assms(1) assms(3)])
  show tbl: "game_sessions_tbl (db ?st') = game_sessions_tbl (db st) @ appended_rows ?outs"
    by (rule end_game_run_table)
  show "persist_count ?outs = 0 \<longrightarrow> game_sessions_tbl (db ?st') = game_sessions_tbl (db st)"
    using tbl persist_none_rows[of ?outs] by simp
  show "n_participants st code \<le> card (scorers evs) \<and> scorers evs \<noteq> {}
            \<longrightarrow> persist_count ?outs = 1
              \<and> (\<exists>rows. filter is_saved ?outs = [Reached (Saved rows)]
                    \<and> game_sessions_tbl (db ?st') = game_sessions_tbl (db st) @ rows)"
  proof
    assume h: "n_participants st code \<le> card (scorers evs) \<and> scorers evs \<noteq> {}"
    have "card (scorers evs) \<le> card (fst ` set (scores_of st code) \<union> scorers evs)"
      by (rule card_mono) (simp_all add: finite_scorers)
    with h have c: "n_participants st code \<le> card (fst ` set (scores_of st code) \<union> scorers evs)"
      by simp
    from h have ne: "evs \<noteq> []" by (auto simp: scorers_Nil)
    have one: "persist_count ?outs = 1"
      using persist_exactly_once_gen[OF assms(1) assms(2) assms(3) c ne] h by simp
    from persist_once_rows[OF one] obtain rows where
      "filter is_saved ?outs = [Reached (Saved rows)]" "appended_rows ?outs = rows" by blast
    with tbl one show "persist_count ?outs = 1
              \<and> (\<exists>rows. filter is_saved ?outs = [Reached (Saved rows)]
                    \<and> game_sessions_tbl (db ?st') = game_sessions_tbl (db st) @ rows)"
      by auto
  qed
  show "\<forall>s se score. s_room se = Some code \<and> is_saved (snd (handle_end_game se score s))
            \<longrightarrow> \<not> is_saved_flag s code
              \<and> n_participants s code \<le> length (scores_of (fst (record_final_score se score s)) code)"
    using end_game_gate by blast
  show "\<forall>s rows. snd (save_game_results (Some code) s) = Saved rows
            \<longrightarrow> (\<exists>row rm. latest_room_row (rooms_tbl (db s)) code = Some row \<and> rooms s code = Some rm
                    \<and> rows = score_rows (row_id row) (row_creator_id row)
                               (case creator_participated rm of None \<Rightarrow> True | Some b \<Rightarrow> b)
                               (scores_of s code))
              \<and> game_sessions_tbl (db (fst (save_game_results (Some code) s)))
                  = game_sessions_tbl (db s) @ rows"
  proof (intro allI impI conjI)
    fix s rows assume a: "snd (save_game_results (Some code) s) = Saved rows"
    show "\<exists>row rm. latest_room_row (rooms_tbl (db s)) code = Some row \<and> rooms s code = Some rm
                    \<and> rows = score_rows (row_id row) (row_creator_id row)
                               (case creator_participated rm of None \<Rightarrow> True | Some b \<Rightarrow> b)
                               (scores_of s code)"
      by (rule save_game_results_rows[OF a])
    show "game_sessions_tbl (db (fst (save_game_results (Some code) s)))
                  = game_sessions_tbl (db s) @ rows"
      using save_game_results_table[of "Some code" s] a by simp
  qed
  show "\<forall>s se v. s_room se = Some code \<and> rooms s code \<noteq> None
            \<longrightarrow> scores_of (fst (record_final_score se (Some v) s)) code
                  = AList.update (s_user_id se) v (scores_of s code)"
    using record_final_score_views(2) by fastforce
qed

theorem score_persistence_once_witness:
  "room_ok scenario_started ''ABCDEF'' \<and> \<not> is_saved_flag scenario_started ''ABCDEF''
   \<and> list_all (\<lambda>e. s_room (fst e) = Some ''ABCDEF'') scenario_end_events
   \<and> n_participants scenario_started ''ABCDEF'' = 3 \<and> card (scorers scenario_end_events) = 3
   \<and> persist_count (snd (end_game_run scenario_end_events scenario_started)) = 1
   \<and> snd (end_game_run scenario_end_events scenario_started) =
       [Reached Waiting, Reached Waiting, Reached Waiting,
        Reached (Saved [\<lparr>sr_user_id = Some 1, sr_room_id = 0, sr_score = 15\<rparr>,
                        \<lparr>sr_user_id = Some 2, sr_room_id = 0, sr_score = 20\<rparr>,
                        \<lparr>sr_user_id = Some 3, sr_room_id = 0, sr_score = 5\<rparr>])]
   \<and> game_sessions_tbl (db scenario_started) = []
   \<and> game_sessions_tbl (db (fst (end_game_run scenario_end_events scenario_started))) =
       [\<lparr>sr_user_id = Some 1, sr_room_id = 0, sr_score = 15\<rparr>,
        \<lparr>sr_user_id = Some 2, sr_room_id = 0, sr_score = 20\<rparr>,
        \<lparr>sr_user_id = Some 3, sr_room_id = 0, sr_score = 5\<rparr>]"
proof -
  let ?outs = "snd (end_game_run scenario_end_events scenario_started)"
  let ?rows = "[\<lparr>sr_user_id = Some 1, sr_room_id = 0, sr_score = 15\<rparr>,
                \<lparr>sr_user_id = Some 2, sr_room_id = 0, sr_score = 20\<rparr>,
                \<lparr>sr_user_id = Some 3, sr_room_id = 0, sr_score = 5\<rparr>]"
  have ok: "room_ok scenario_started ''ABCDEF''" by code_simp
  have nf: "\<not> is_saved_flag scenario_started ''ABCDEF''" by code_simp
  have ev: "\<forall>e\<in>set scenario_end_events. s_room (fst e) = Some ''ABCDEF''" by code_simp
  have ev': "list_all (\<lambda>e. s_room (fst e) = Some ''ABCDEF'') scenario_end_events" by code_simp
  have n: "n_participants scenario_started ''ABCDEF'' = 3" by code_simp
  have c: "card (scorers scenario_end_events) = 3" by code_simp
  have ne: "scorers scenario_end_events \<noteq> {}" using c by auto
  have t0: "game_sessions_tbl (db scenario_started) = []" by code_simp
  have run: "?outs = [Reached Waiting, Reached Waiting, Reached Waiting, Reached (Saved ?rows)]"
    by code_simp
  note imp = score_persistence_once[OF ok nf ev, THEN conjunct2, THEN conjunct2,
      THEN conjunct2, THEN conjunct1]
  have pre: "n_participants scenario_started ''ABCDEF'' \<le> card (scorers scenario_end_events)
              \<and> scorers scenario_end_events \<noteq> {}"
    using n c ne by simp
  from imp pre
  have one: "persist_count ?outs = 1"
    and ex: "\<exists>rows. filter is_saved ?outs = [Reached (Saved rows)]
               \<and> game_sessions_tbl (db (fst (end_game_run scenario_end_events scenario_started)))
                   = game_sessions_tbl (db scenario_started) @ rows"
    by blast+
  from ex obtain rows where r: "filter is_saved ?outs = [Reached (Saved rows)]"
    and t: "game_sessions_tbl (db (fst (end_game_run scenario_end_events scenario_started)))
              = game_sessions_tbl (db scenario_started) @ rows"
    by blast
  from r run have "rows = ?rows" by simp
  with t t0 have fin: "game_sessions_tbl (db (fst (end_game_run scenario_end_events scenario_started))) = ?rows"
    by simp
  from ok nf ev' n c one run t0 fin show ?thesis by simp
qed

text \<open>
  The readiness barrier of \<open>start_game\<close>: the request is accepted exactly when every
  entry of \<open>camera_status\<close> is ready and there is at least one; a rejected request gets
  the \<open>N/M ready\<close> message and leaves \<open>rooms\<close> and the store as they were. The
  \<open>ongoing\<close> flag is set in both cases.
\<close>

lemma start_game_barrier:
  assumes "truthy_uid (s_user_id se)" and "s_room se = Some code" and "code \<noteq> []"
    and "rooms st code = Some rm"
  shows "snd (handle_start_game se st) =
           (if ready_users (case camera_status rm of None \<Rightarrow> [] | Some c \<Rightarrow> c)
                 = length (case camera_status rm of None \<Rightarrow> [] | Some c \<Rightarrow> c)
               \<and> 0 < length (case camera_status rm of None \<Rightarrow> [] | Some c \<Rightarrow> c)
            then [StartGameCountdown code]
            else [NotAllCamerasReady (ready_users (case camera_status rm of None \<Rightarrow> [] | Some c \<Rightarrow> c))
                    (length (case camera_status rm of None \<Rightarrow> [] | Some c \<Rightarrow> c))])"
    and "snd (handle_start_game se st) \<noteq> [StartGameCountdown code] \<Longrightarrow>
           rooms (fst (handle_start_game se st)) = rooms st \<and> db (fst (handle_start_game se st)) = db st"
    and "map_option ongoing (game_states (fst (handle_start_game se st)) code) = Some (Some True)"
  using assms
  by (auto simp: handle_start_game_def room_in_def Let_def save_game_instance_to_db_def
      split: option.splits if_splits)

text \<open>
  Claim C2 (a rejected start request leaves the room's state unchanged, in particular the
  \<open>ongoing\<close> flag is not set), evaluated on the scenario with two of three cameras
  ready: the request is rejected with \<open>2/3 ready\<close>, the room had no entry in
  \<open>game_states\<close> before, and its \<open>ongoing\<close> flag is \<open>True\<close> afterwards.
\<close>

theorem rejected_start_sets_ongoing:
  "snd (handle_start_game (mk_sess 1 ''ABCDEF'' ''u1'') scenario_two_ready) = [NotAllCamerasReady 2 3]
   \<and> game_states scenario_two_ready ''ABCDEF'' = None
   \<and> map_option ongoing
        (game_states (fst (handle_start_game (mk_sess 1 ''ABCDEF'' ''u1'') scenario_two_ready)) ''ABCDEF'')
       = Some (Some True)"
  by code_simp

theorem rejected_start_sets_ongoing_witness:
  "game_states (fst (handle_start_game (mk_sess 1 ''ABCDEF'' ''u1'') scenario_two_ready)) ''ABCDEF''
     \<noteq> game_states scenario_two_ready ''ABCDEF''
   \<and> rooms (fst (handle_start_game (mk_sess 1 ''ABCDEF'' ''u1'') scenario_two_ready)) ''ABCDEF''
     = rooms scenario_two_ready ''ABCDEF''"
proof -
  have "rooms (fst (handle_start_game (mk_sess 1 ''ABCDEF'' ''u1'') scenario_two_ready)) ''ABCDEF''
     = rooms scenario_two_ready ''ABCDEF''"
    by code_simp
  with rejected_start_sets_ongoing show ?thesis by auto
qed


section \<open>Properties of the feature extractor and the classifier adapter\<close>


lemma length_pad_trunc [simp]: "length (pad_trunc n xs) = n"
  by (simp add: pad_trunc_def)

lemma pad_trunc_exact: "length xs = n \<Longrightarrow> pad_trunc n xs = xs"
  by (simp add: pad_trunc_def)

lemma those_eq_Some: "those os = Some ys \<longleftrightarrow> os = map Some ys"
proof (induction os arbitrary: ys)
  case Nil
  then show ?case by auto
next
  case (Cons o1 os)
  then show ?case by (cases o1; cases ys) (auto split: option.splits)
qed

lemma those_map_Some_length: "those (map f xs) = Some ys \<Longrightarrow> length ys = length xs"
  by (metis length_map those_eq_Some)

lemma those_map_Some_nth:
  "those (map f xs) = Some ys \<Longrightarrow> i < length xs \<Longrightarrow> f (xs ! i) = Some (ys ! i)"
  by (metis length_map nth_map those_eq_Some)

lemma those_map_Some_set:
  assumes "those (map f xs) = Some ys" and "y \<in> set ys"
  shows "\<exists>x\<in>set xs. f x = Some y"
proof -
  from assms(2) obtain i where i: "i < length ys" "ys ! i = y" by (auto simp: in_set_conv_nth)
  with those_map_Some_length[OF assms(1)] have "i < length xs" by simp
  with those_map_Some_nth[OF assms(1)] i show ?thesis by (metis nth_mem)
qed

lemma those_None_iff: "those os = None \<longleftrightarrow> None \<in> set os"
  by (induction os) (auto split: option.splits)

lemma length_pad_to: "length (pad_to n x xs) = max n (length xs)"
  by (simp add: pad_to_def)

lemma convert_landmark_length: "convert_landmark l = Some p \<Longrightarrow> length p = 3"
  by (cases l) (auto split: option.splits)

lemma process_hand_shape:
  assumes "process_hand h = Some (h', pts)"
  shows "length pts = 21 \<and> (\<forall>p\<in>set pts. length p = 3)"
proof (cases h)
  case BadHand
  with assms show ?thesis by simp
next
  case (Hand lo)
  let ?lms = "take 21 (pad_to 21 zero_landmark (case lo of None \<Rightarrow> [] | Some l \<Rightarrow> l))"
  from assms Hand have t: "those (map convert_landmark ?lms) = Some pts"
    by (auto simp: Let_def split: option.splits)
  have "length ?lms = 21" by (simp add: length_pad_to)
  with those_map_Some_length[OF t] have "length pts = 21" by simp
  moreover have "\<forall>p\<in>set pts. length p = 3"
    using those_map_Some_set[OF t] convert_landmark_length by blast
  ultimately show ?thesis by simp
qed

lemma process_frame_shape:
  assumes "process_frame f = Some (f', hs)"
  shows "length hs = 2 \<and> (\<forall>h\<in>set hs. hand_shape h)"
proof (cases f)
  case BadFrame
  with assms show ?thesis by simp
next
  case (FrameD ho)
  let ?hs = "take 2 (pad_to 2 zero_hand (case ho of None \<Rightarrow> [] | Some h \<Rightarrow> h))"
  from assms FrameD obtain rs where t: "those (map process_hand ?hs) = Some rs" and hs: "hs = map snd rs"
    by (auto simp: Let_def split: option.splits)
  have "length ?hs = 2" by (simp add: length_pad_to)
  with those_map_Some_length[OF t] hs have l: "length hs = 2" by simp
  have "\<forall>h\<in>set hs. hand_shape h"
  proof
    fix h assume "h \<in> set hs"
    then obtain r where r: "r \<in> set rs" "h = snd r" using hs by auto
    from those_map_Some_set[OF t r(1)] obtain x where "process_hand x = Some r" by blast
    then have "process_hand x = Some (fst r, h)" using r(2) by simp
    from process_hand_shape[OF this] show "hand_shape h" by (simp add: hand_shape_def)
  qed
  with l show ?thesis by simp
qed

lemma process_frame_hands_len:
  assumes "process_frame f = Some (f', hs)"
  shows "hands_len f' = (case f of FrameD (Some h) \<Rightarrow> max 2 (length h) | _ \<Rightarrow> 0)"
proof (cases f)
  case BadFrame
  with assms show ?thesis by simp
next
  case (FrameD ho)
  let ?p = "pad_to 2 zero_hand (case ho of None \<Rightarrow> [] | Some h \<Rightarrow> h)"
  from assms FrameD obtain rs where t: "those (map process_hand (take 2 ?p)) = Some rs"
    and f': "f' = FrameD (case ho of None \<Rightarrow> None | Some _ \<Rightarrow> Some (map fst rs @ drop 2 ?p))"
    by (auto simp: Let_def split: option.splits)
  have "length (take 2 ?p) = 2" by (simp add: length_pad_to)
  with those_map_Some_length[OF t] have "length rs = 2" by simp
  then show ?thesis using f' FrameD by (cases ho) (auto simp: length_pad_to)
qed

lemma raw_shape_ok:
  assumes "those (map process_frame frames) = Some rs"
  shows "shape_ok (map snd rs)" and "length rs = length frames"
proof -
  show "length rs = length frames" by (rule those_map_Some_length[OF assms])
  show "shape_ok (map snd rs)"
    unfolding shape_ok_def
  proof
    fix fr assume "fr \<in> set (map snd rs)"
    then obtain r where r: "r \<in> set rs" "fr = snd r" by auto
    from those_map_Some_set[OF assms r(1)] obtain x where "process_frame x = Some r" by blast
    then have "process_frame x = Some (fst r, fr)" using r(2) by simp
    from process_frame_shape[OF this] show "length fr = 2 \<and> (\<forall>h\<in>set fr. hand_shape h)" by simp
  qed
qed

lemma shape_dims:
  assumes "shape_ok arr" and "arr \<noteq> []"
  shows "n_hands arr = 2" and "n_landmarks arr = 21" and "n_coords arr = 3"
proof -
  from assms obtain fr rest where a: "arr = fr # rest" by (cases arr) auto
  with assms have f: "length fr = 2" "\<forall>h\<in>set fr. hand_shape h" by (auto simp: shape_ok_def)
  then obtain h0 h1 where fr: "fr = [h0, h1]"
    by (cases fr; cases "tl fr") auto
  with f have h: "length h0 = 21" "\<forall>p\<in>set h0. length p = 3" by (auto simp: hand_shape_def)
  then obtain p0 hr where h0: "h0 = p0 # hr" by (cases h0) auto
  with h have p: "length p0 = 3" by simp
  show "n_hands arr = 2" using a f by (simp add: n_hands_def)
  show "n_landmarks arr = 21" using a fr h by (simp add: n_landmarks_def)
  show "n_coords arr = 3" using a fr h0 p by (simp add: n_coords_def)
qed

lemma smooth_shape_ok:
  assumes "shape_ok arr"
  shows "shape_ok (smooth_sequence arr)" and "length (smooth_sequence arr) = length arr"
proof -
  show "length (smooth_sequence arr) = length arr" by (simp add: smooth_sequence_def)
  show "shape_ok (smooth_sequence arr)"
  proof (cases "length arr < 3")
    case True
    then show ?thesis using assms by (simp add: smooth_sequence_def)
  next
    case False
    then have ne: "arr \<noteq> []" by auto
    note d = shape_dims[OF assms ne]
    show ?thesis using False
      by (auto simp: smooth_sequence_def shape_ok_def hand_shape_def d)
  qed
qed

lemma vsub_self: "vsub w w = replicate (length w) 0"
  by (induction w) (auto simp: vsub_def)

lemma length_vsub: "length (vsub p q) = min (length p) (length q)"
  by (simp add: vsub_def)

lemma all_zero_replicate: "\<not> list_ex (\<lambda>x. x \<noteq> (0::real)) w \<Longrightarrow> w = replicate (length w) 0"
  by (induction w) auto

lemma normalize_hand_wrist:
  assumes "hand_shape h"
  shows "hand_shape (normalize_hand h)" and "normalize_hand h ! 0 = [0, 0, 0]"
proof -
  from assms have l: "length h = 21" and p: "\<forall>p\<in>set h. length p = 3" by (auto simp: hand_shape_def)
  then have w: "length (h ! 0) = 3" by simp
  have r3: "replicate 3 (0::real) = [0, 0, 0]" by (simp add: numeral_3_eq_3)
  show "hand_shape (normalize_hand h)"
    using l p w by (auto simp: normalize_hand_def hand_shape_def Let_def length_vsub)
  show "normalize_hand h ! 0 = [0, 0, 0]"
  proof (cases "list_ex (\<lambda>x. x \<noteq> 0) (h ! 0)")
    case True
    then have "normalize_hand h ! 0 = vsub (h ! 0) (h ! 0)"
      using l by (simp add: normalize_hand_def Let_def)
    then show ?thesis using vsub_self[of "h ! 0"] w r3 by simp
  next
    case False
    then have "normalize_hand h ! 0 = h ! 0" by (simp add: normalize_hand_def Let_def)
    then show ?thesis using all_zero_replicate[OF False] w r3 by simp
  qed
qed

lemma normalize_sequence_wrists:
  assumes "shape_ok arr"
  shows "shape_ok (normalize_sequence arr)" and "wrists_at_origin (normalize_sequence arr)"
    and "length (normalize_sequence arr) = length arr"
  using assms normalize_hand_wrist
  by (auto simp: normalize_sequence_def shape_ok_def wrists_at_origin_def)

lemma preprocess_result:
  assumes "preprocess_sequence frames = Some (frames', arr)"
  shows "shape_ok arr" and "wrists_at_origin arr" and "length arr = length frames"
    and "length frames' = length frames"
    and "map hands_len frames' = map (\<lambda>f. case f of FrameD (Some h) \<Rightarrow> max 2 (length h) | _ \<Rightarrow> 0) frames"
proof -
  from assms obtain rs where t: "those (map process_frame frames) = Some rs"
    and f': "frames' = map fst rs" and a: "arr = normalize_sequence (smooth_sequence (map snd rs))"
    by (auto simp: preprocess_sequence_def split: option.splits)
  note raw = raw_shape_ok[OF t]
  note sm = smooth_shape_ok[OF raw(1)]
  note nm = normalize_sequence_wrists[OF sm(1)]
  show "shape_ok arr" using nm(1) a by simp
  show "wrists_at_origin arr" using nm(2) a by simp
  show "length arr = length frames" using nm(3) sm(2) raw(2) a by simp
  show "length frames' = length frames" using f' raw(2) by simp
  show "map hands_len frames' = map (\<lambda>f. case f of FrameD (Some h) \<Rightarrow> max 2 (length h) | _ \<Rightarrow> 0) frames"
  proof (rule nth_equalityI)
    show "length (map hands_len frames') = length (map (\<lambda>f. case f of FrameD (Some h) \<Rightarrow> max 2 (length h) | _ \<Rightarrow> 0) frames)"
      using f' raw(2) by simp
  next
    fix i assume "i < length (map hands_len frames')"
    then have i: "i < length frames" using f' raw(2) by simp
    from those_map_Some_nth[OF t i] have "process_frame (frames ! i) = Some (fst (rs ! i), snd (rs ! i))"
      by simp
    from process_frame_hands_len[OF this] i f' raw(2)
    show "map hands_len frames' ! i = map (\<lambda>f. case f of FrameD (Some h) \<Rightarrow> max 2 (length h) | _ \<Rightarrow> 0) frames ! i"
      by simp
  qed
qed

lemma allclose0_zero2: "allclose0 [0, 0]"
  by (simp add: allclose0_def)

lemma wrist_positions_zero:
  assumes "shape_ok arr" and "wrists_at_origin arr" and "h < 2"
  shows "\<forall>p\<in>set (wrist_positions arr h). p = [0, 0]"
proof
  fix p assume "p \<in> set (wrist_positions arr h)"
  then obtain fr where fr: "fr \<in> set arr" "p = take 2 (fr ! h ! 0)"
    by (auto simp: wrist_positions_def)
  with assms(1) have "length fr = 2" by (simp add: shape_ok_def)
  with assms(3) have "fr ! h \<in> set fr" by simp
  with assms(2) fr(1) have "fr ! h ! 0 = [0, 0, 0]" by (simp add: wrists_at_origin_def)
  with fr(2) show "p = [0, 0]" by (simp add: numeral_2_eq_2)
qed

lemma velocities_empty:
  assumes "\<forall>p\<in>set wp. allclose0 p"
  shows "velocities wp = []"
proof -
  have "\<forall>ab\<in>set (pairs wp). allclose0 (fst ab)"
    using assms by (auto simp: pairs_def dest: set_zip_leftD)
  then show ?thesis by (auto simp: velocities_def filter_empty_conv)
qed

lemma velocities_wrists:
  assumes "shape_ok arr" and "wrists_at_origin arr" and "h < 2"
  shows "velocities (wrist_positions arr h) = []"
  using wrist_positions_zero[OF assms] allclose0_zero2 by (intro velocities_empty) auto

lemma valid_positions_wrists:
  assumes "shape_ok arr" and "wrists_at_origin arr" and "h < 2"
  shows "filter (\<lambda>p. \<not> allclose0 p) (wrist_positions arr h) = []"
  using wrist_positions_zero[OF assms] allclose0_zero2 by (auto simp: filter_empty_conv)

lemma temporal_hand_zero:
  assumes "shape_ok arr" and "wrists_at_origin arr" and "h < 2"
  shows "temporal_hand arr h = replicate 6 0"
  using velocities_wrists[OF assms]
  by (simp add: temporal_hand_def Let_def numeral_eq_Suc)

lemma trajectory_hand_zero:
  assumes "shape_ok arr" and "wrists_at_origin arr" and "h < 2"
  shows "trajectory_hand arr h = replicate 8 0"
  using valid_positions_wrists[OF assms]
  by (simp add: trajectory_hand_def Let_def)

lemma replicate_append_same: "replicate m x @ replicate n x = replicate (m + n) x"
  by (simp add: replicate_add)

lemma temporal_features_zero:
  assumes "shape_ok arr" and "wrists_at_origin arr"
  shows "extract_enhanced_temporal_features arr = replicate 12 0"
proof -
  have "temporal_hand arr 0 @ temporal_hand arr 1 = replicate 12 0"
    using temporal_hand_zero[OF assms, of 0] temporal_hand_zero[OF assms, of 1]
    by (simp add: replicate_append_same)
  then show ?thesis by (simp add: extract_enhanced_temporal_features_def pad_trunc_exact)
qed

lemma trajectory_features_zero:
  assumes "shape_ok arr" and "wrists_at_origin arr"
  shows "extract_trajectory_features arr = replicate 16 0"
proof -
  have "trajectory_hand arr 0 @ trajectory_hand arr 1 = replicate 16 0"
    using trajectory_hand_zero[OF assms, of 0] trajectory_hand_zero[OF assms, of 1]
    by (simp add: replicate_append_same)
  then show ?thesis by (simp add: extract_trajectory_features_def pad_trunc_exact)
qed

lemma separations_empty:
  assumes "shape_ok arr" and "wrists_at_origin arr"
  shows "separations arr = []"
proof -
  have "\<forall>fr\<in>set arr. allclose0 (take 2 (fr ! 0 ! 0))"
  proof
    fix fr assume fr: "fr \<in> set arr"
    with assms(1) have "length fr = 2" by (simp add: shape_ok_def)
    then have "fr ! 0 \<in> set fr" by simp
    with assms(2) fr have "fr ! 0 ! 0 = [0, 0, 0]" by (simp add: wrists_at_origin_def)
    then show "allclose0 (take 2 (fr ! 0 ! 0))" by (simp add: numeral_2_eq_2 allclose0_def)
  qed
  then show ?thesis by (auto simp: separations_def filter_empty_conv)
qed

lemma hand_motion_zero:
  assumes "shape_ok arr" and "wrists_at_origin arr" and "h < 2"
  shows "calculate_hand_motion arr h = 0"
  using velocities_wrists[OF assms] by (simp add: calculate_hand_motion_def)

lemma synchronization_zero:
  assumes "shape_ok arr" and "wrists_at_origin arr"
  shows "calculate_hand_synchronization arr = 0"
  using velocities_wrists[OF assms, of 0]
  by (simp add: calculate_hand_synchronization_def Let_def)

lemma global_features_shape:
  assumes "shape_ok arr" and "wrists_at_origin arr"
  shows "extract_global_features arr frames =
           [mean (map (\<lambda>f. real (hands_len f)) frames), 0, 0, 0, 0, calculate_gesture_complexity arr]"
  using separations_empty[OF assms] hand_motion_zero[OF assms, of 0] hand_motion_zero[OF assms, of 1]
    synchronization_zero[OF assms]
  by (simp add: extract_global_features_def Let_def pad_trunc_def)

lemma extract_Some_iff:
  "extract_sequence_features frames = Some v \<longleftrightarrow>
     5 \<le> length frames \<and>
     (\<exists>frames' arr. preprocess_sequence frames = Some (frames', arr) \<and>
        v = extract_spatial_features arr @ extract_enhanced_temporal_features arr
            @ extract_geometric_features arr @ extract_statistical_features arr
            @ extract_trajectory_features arr @ extract_global_features arr frames')"
  by (auto simp: extract_sequence_features_def split: option.splits)

lemma family_lengths:
  "length (extract_spatial_features arr) = 30"
  "length (extract_enhanced_temporal_features arr) = 12"
  "length (extract_geometric_features arr) = 4"
  "length (extract_statistical_features arr) = 8"
  "length (extract_trajectory_features arr) = 16"
  "length (extract_global_features arr frames) = 6"
  by (simp_all add: extract_spatial_features_def extract_enhanced_temporal_features_def
        extract_geometric_features_def extract_statistical_features_def
        extract_trajectory_features_def extract_global_features_def Let_def)

lemma length_feature_names: "length feature_names = 76"
  by (simp add: feature_names_def hand_prefixes_def)

lemma process_frame_empty: "process_frame (FrameD (Some [])) \<noteq> None"
  by (simp add: pad_to_def zero_hand_def zero_landmark_def numeral_eq_Suc Let_def)

lemma process_frame_one_hand: "process_frame (FrameD (Some [one_hand])) \<noteq> None"
  by (simp add: pad_to_def zero_hand_def zero_landmark_def one_hand_def numeral_eq_Suc Let_def)

lemma preprocess_None_iff:
  "preprocess_sequence frames = None \<longleftrightarrow> (\<exists>f\<in>set frames. process_frame f = None)"
proof -
  have a: "preprocess_sequence frames = None \<longleftrightarrow> those (map process_frame frames) = None"
    by (auto simp: preprocess_sequence_def split: option.splits)
  have b: "those (map process_frame frames) = None \<longleftrightarrow> None \<in> set (map process_frame frames)"
    by (rule those_None_iff)
  have c: "None \<in> set (map process_frame frames) \<longleftrightarrow> (\<exists>f\<in>set frames. process_frame f = None)"
    by force
  from a b c show ?thesis by simp
qed

lemma preprocess_empty_window: "preprocess_sequence empty_window \<noteq> None"
proof
  assume "preprocess_sequence empty_window = None"
  then obtain f where "f \<in> set empty_window" "process_frame f = None"
    unfolding preprocess_None_iff by blast
  then have "process_frame (FrameD (Some [])) = None"
    by (simp add: empty_window_def del: process_frame.simps)
  with process_frame_empty show False by blast
qed

lemma preprocess_one_hand_window: "preprocess_sequence one_hand_window \<noteq> None"
proof
  assume "preprocess_sequence one_hand_window = None"
  then obtain f where "f \<in> set one_hand_window" "process_frame f = None"
    unfolding preprocess_None_iff by blast
  then have "process_frame (FrameD (Some [one_hand])) = None"
    by (simp add: one_hand_window_def del: process_frame.simps)
  with process_frame_one_hand show False by blast
qed


lemma extract_empty_window_ex: "\<exists>v. extract_sequence_features empty_window = Some v"
  using preprocess_empty_window
  by (auto simp: extract_sequence_features_def empty_window_def split: option.splits)

lemma extract_one_hand_window_ex: "\<exists>v. extract_sequence_features one_hand_window = Some v"
  using preprocess_one_hand_window
  by (auto simp: extract_sequence_features_def one_hand_window_def split: option.splits)

text \<open>
  Claim C4, as the code has it. Whenever extraction succeeds (which needs at least 5
  frames), the feature vector has exactly 76 entries, the concatenation in this order of
  30 spatial, 12 temporal, 4 geometric, 8 statistical, 16 trajectory and 6 global
  features, and the list of feature names has the same length. The number 146 of the
  claim is not the sum of its own summands.
\<close>

theorem feature_vector_length:
  assumes "extract_sequence_features frames = Some v"
  shows "length v = 76 \<and> length feature_names = length v \<and> 5 \<le> length frames \<and>
         (\<exists>frames' arr. preprocess_sequence frames = Some (frames', arr) \<and>
            v = extract_spatial_features arr @ extract_enhanced_temporal_features arr
                @ extract_geometric_features arr @ extract_statistical_features arr
                @ extract_trajectory_features arr @ extract_global_features arr frames' \<and>
            length (extract_spatial_features arr) = 30 \<and>
            length (extract_enhanced_temporal_features arr) = 12 \<and>
            length (extract_geometric_features arr) = 4 \<and>
            length (extract_statistical_features arr) = 8 \<and>
            length (extract_trajectory_features arr) = 16 \<and>
            length (extract_global_features arr frames') = 6)"
proof -
  from assms obtain frames' arr where p: "preprocess_sequence frames = Some (frames', arr)"
    and v: "v = extract_spatial_features arr @ extract_enhanced_temporal_features arr
                @ extract_geometric_features arr @ extract_statistical_features arr
                @ extract_trajectory_features arr @ extract_global_features arr frames'"
    and n: "5 \<le> length frames"
    unfolding extract_Some_iff by blast
  have "length v = 76" unfolding v by (simp add: family_lengths)
  then show ?thesis using p v n by (simp add: family_lengths length_feature_names)
qed

theorem feature_vector_length_witness:
  "map_option length (extract_sequence_features empty_window) = Some 76
   \<and> length feature_names = 76"
proof -
  from extract_empty_window_ex obtain v where v: "extract_sequence_features empty_window = Some v" ..
  from feature_vector_length[OF v] v show ?thesis by simp
qed

text \<open>
  The claim as stated, at a window of five frames without hands: extraction succeeds and
  the vector has 76 entries, not 146.
\<close>

theorem feature_vector_not_146:
  "5 \<le> length empty_window
   \<and> map_option length (extract_sequence_features empty_window) = Some 76
   \<and> map_option length (extract_sequence_features empty_window) \<noteq> Some 146"
proof -
  from extract_empty_window_ex obtain v where v: "extract_sequence_features empty_window = Some v" ..
  have "length v = 76" using v unfolding extract_Some_iff by (auto simp: family_lengths)
  with v show ?thesis by (simp add: empty_window_def)
qed

text \<open>
  Claim C5. For a window of fewer than 5 frames feature extraction returns \<open>None\<close>
  (and \<open>predict\<close> answers \<open>insufficient_data\<close>); extraction returns \<open>None\<close> exactly
  when the window has fewer than 5 frames or \<open>preprocess_sequence\<close> returns \<open>None\<close>.
\<close>

theorem extraction_none_iff:
  "(length frames < 5 \<longrightarrow> extract_sequence_features frames = None
                              \<and> predict model frames = Insufficient_data)
   \<and> (extract_sequence_features frames = None
        \<longleftrightarrow> length frames < 5 \<or> preprocess_sequence frames = None)"
  by (auto simp: extract_sequence_features_def predict_def split: option.splits)

theorem extraction_none_iff_witness:
  "length ([] :: frame list) < 5 \<and> extract_sequence_features [] = None
   \<and> extract_sequence_features (replicate 5 BadFrame) = None
   \<and> extract_sequence_features empty_window \<noteq> None"
proof -
  have a: "extract_sequence_features [] = None"
    using extraction_none_iff[of "[]" None] by simp
  have "preprocess_sequence (replicate 5 BadFrame) = None"
    unfolding preprocess_None_iff by simp
  then have b: "extract_sequence_features (replicate 5 BadFrame) = None"
    using extraction_none_iff[of "replicate 5 BadFrame" None] by simp
  have c: "extract_sequence_features empty_window \<noteq> None"
    using extraction_none_iff[of empty_window None] preprocess_empty_window
    by (simp add: empty_window_def)
  from a b c show ?thesis by simp
qed

text \<open>
  Claim C3. After preprocessing, the wrist of every hand of every frame is the origin;
  hence the 12 temporal features, the 16 trajectory features and the global features
  hand-separation change, relative motion, dominant-hand activity and synchronization
  score are 0, both as the families return them and at their positions 30-41, 54-69 and
  71-74 of every extracted feature vector.
\<close>

theorem wrist_features_zero:
  "(\<forall>frames' arr. preprocess_sequence frames = Some (frames', arr) \<longrightarrow>
       wrists_at_origin arr
       \<and> extract_enhanced_temporal_features arr = replicate 12 0
       \<and> extract_trajectory_features arr = replicate 16 0
       \<and> take 4 (drop 1 (extract_global_features arr frames')) = replicate 4 0)
   \<and> (\<forall>v. extract_sequence_features frames = Some v \<longrightarrow>
       take 12 (drop 30 v) = replicate 12 0
       \<and> take 16 (drop 54 v) = replicate 16 0
       \<and> take 4 (drop 71 v) = replicate 4 0)"
proof (intro conjI allI impI)
  fix frames' arr assume p: "preprocess_sequence frames = Some (frames', arr)"
  note r = preprocess_result[OF p]
  show "wrists_at_origin arr" by (rule r(2))
  show "extract_enhanced_temporal_features arr = replicate 12 0"
    by (rule temporal_features_zero[OF r(1) r(2)])
  show "extract_trajectory_features arr = replicate 16 0"
    by (rule trajectory_features_zero[OF r(1) r(2)])
  show "take 4 (drop 1 (extract_global_features arr frames')) = replicate 4 0"
    by (simp add: global_features_shape[OF r(1) r(2)] numeral_eq_Suc)
next
  fix v assume e: "extract_sequence_features frames = Some v"
  then obtain frames' arr where p: "preprocess_sequence frames = Some (frames', arr)"
    and v: "v = extract_spatial_features arr @ extract_enhanced_temporal_features arr
                @ extract_geometric_features arr @ extract_statistical_features arr
                @ extract_trajectory_features arr @ extract_global_features arr frames'"
    unfolding extract_Some_iff by blast
  note r = preprocess_result[OF p]
  note t = temporal_features_zero[OF r(1) r(2)]
  note j = trajectory_features_zero[OF r(1) r(2)]
  note g = global_features_shape[OF r(1) r(2), of frames']
  show "take 12 (drop 30 v) = replicate 12 0"
    unfolding v using t by (simp add: family_lengths)
  show "take 16 (drop 54 v) = replicate 16 0"
    unfolding v using j by (simp add: family_lengths)
  show "take 4 (drop 71 v) = replicate 4 0"
    unfolding v using g by (simp add: family_lengths numeral_eq_Suc)
qed

theorem wrist_features_zero_witness:
  "map_option (\<lambda>v. take 12 (drop 30 v)) (extract_sequence_features one_hand_window) = Some (replicate 12 0)
   \<and> map_option (\<lambda>v. take 16 (drop 54 v)) (extract_sequence_features one_hand_window) = Some (replicate 16 0)
   \<and> map_option (\<lambda>v. take 4 (drop 71 v)) (extract_sequence_features one_hand_window) = Some (replicate 4 0)"
proof -
  from extract_one_hand_window_ex obtain v where v: "extract_sequence_features one_hand_window = Some v" ..
  from wrist_features_zero[of one_hand_window] v show ?thesis by simp
qed

text \<open>
  The first global feature is computed from the frame dictionaries after
  \<open>preprocess_sequence\<close> has padded each \<open>hands\<close> list in place to two hands: it is
  the mean of \<open>max 2 (len(hands))\<close> over the frames that have the key \<open>hands\<close>.
\<close>

lemma avg_hands_detected_value:
  assumes "extract_sequence_features frames = Some v"
  shows "v ! 70 = mean (map (\<lambda>f. real (case f of FrameD (Some h) \<Rightarrow> max 2 (length h) | _ \<Rightarrow> 0)) frames)"
proof -
  from assms obtain frames' arr where p: "preprocess_sequence frames = Some (frames', arr)"
    and v: "v = extract_spatial_features arr @ extract_enhanced_temporal_features arr
                @ extract_geometric_features arr @ extract_statistical_features arr
                @ extract_trajectory_features arr @ extract_global_features arr frames'"
    unfolding extract_Some_iff by blast
  note r = preprocess_result[OF p]
  note g = global_features_shape[OF r(1) r(2), of frames']
  have "v ! 70 = extract_global_features arr frames' ! 0"
    unfolding v by (simp add: nth_append family_lengths)
  also have "\<dots> = mean (map (\<lambda>f. real (hands_len f)) frames')" using g by simp
  also have "map (\<lambda>f. real (hands_len f)) frames' = map real (map hands_len frames')" by simp
  also have "map hands_len frames' = map (\<lambda>f. case f of FrameD (Some h) \<Rightarrow> max 2 (length h) | _ \<Rightarrow> 0) frames"
    by (rule r(5))
  finally show ?thesis by (simp add: comp_def)
qed

text \<open>
  Claim C10 (the feature \<open>avg_hands_detected\<close> is the mean number of hands detected per
  frame of the original input), evaluated on a window of five frames with exactly one
  detected hand each: the mean of the input is 1, the feature at position 70 is 2.
\<close>

theorem avg_hands_detected_is_two:
  "map_option (\<lambda>v. v ! 70) (extract_sequence_features one_hand_window) = Some 2
   \<and> feature_names ! 70 = ''avg_hands_detected''
   \<and> map hands_len one_hand_window = [1, 1, 1, 1, 1]
   \<and> mean (map (\<lambda>f. real (hands_len f)) one_hand_window) = 1"
proof -
  from extract_one_hand_window_ex obtain v where v: "extract_sequence_features one_hand_window = Some v" ..
  have "v ! 70 = 2"
    unfolding avg_hands_detected_value[OF v]
    by (simp add: one_hand_window_def mean_def numeral_eq_Suc)
  moreover have "feature_names ! 70 = ''avg_hands_detected''"
    by (simp add: feature_names_def hand_prefixes_def nth_append)
  moreover have "map hands_len one_hand_window = [1, 1, 1, 1, 1]"
    by (simp add: one_hand_window_def numeral_eq_Suc)
  moreover have "mean (map (\<lambda>f. real (hands_len f)) one_hand_window) = 1"
    by (simp add: one_hand_window_def mean_def numeral_eq_Suc)
  ultimately show ?thesis using v by simp
qed

text \<open>
  Claim C9, as the code has it. \<open>predict\<close> does not compare the length of the feature
  vector with the artifact's dimensionality. With a scaler that validates its input, a
  vector of another length is neither truncated nor padded: the scaler raises, the
  exception is caught by the handler of \<open>predict\<close>, and the result is the untyped
  \<open>prediction_error\<close>.
\<close>

theorem mismatch_prediction_error:
  assumes "scaler_validates art" and "extract_sequence_features frames = Some v"
    and "length v \<noteq> n_features_in art"
  shows "predict (Some art) frames = Prediction_error"
proof -
  from assms(2) have "5 \<le> length frames" unfolding extract_Some_iff by blast
  moreover from assms(1) assms(3) have "scaler_transform art v = None"
    by (simp add: scaler_validates_def)
  ultimately show ?thesis using assms(2) by (simp add: predict_def)
qed

theorem mismatch_prediction_error_witness:
  "scaler_validates artifact_146
   \<and> map_option length (extract_sequence_features empty_window) = Some 76
   \<and> n_features_in artifact_146 = 146
   \<and> predict (Some artifact_146) empty_window = Prediction_error"
proof -
  from extract_empty_window_ex obtain v where v: "extract_sequence_features empty_window = Some v" ..
  have l: "length v = 76" using v unfolding extract_Some_iff by (auto simp: family_lengths)
  have s: "scaler_validates artifact_146" by (simp add: scaler_validates_def artifact_146_def)
  have n: "length v \<noteq> n_features_in artifact_146" using l by (simp add: artifact_146_def)
  from mismatch_prediction_error[OF s v n] s v l show ?thesis by (simp add: artifact_146_def)
qed

text \<open>
  The claim as stated, at an artifact fitted on 146 features and a window of five frames
  without hands: the result is \<open>prediction_error\<close>, the same value that an artifact of
  the right dimensionality gives when its classifier raises.
\<close>

theorem mismatch_is_generic_error:
  "map_option length (extract_sequence_features empty_window) = Some 76
   \<and> n_features_in artifact_146 = 146
   \<and> predict (Some artifact_146) empty_window = Prediction_error
   \<and> n_features_in artifact_raising = 76
   \<and> predict (Some artifact_raising) empty_window = Prediction_error"
proof -
  from extract_empty_window_ex obtain v where v: "extract_sequence_features empty_window = Some v" ..
  have l: "length v = 76" using v unfolding extract_Some_iff by (auto simp: family_lengths)
  have n: "5 \<le> length empty_window" by (simp add: empty_window_def)
  have a: "predict (Some artifact_146) empty_window = Prediction_error"
    using v l n by (simp add: predict_def artifact_146_def)
  have b: "predict (Some artifact_raising) empty_window = Prediction_error"
    using v l n by (simp add: predict_def artifact_raising_def)
  from a b v l show ?thesis by (simp add: artifact_146_def artifact_raising_def)
qed

end
